theory Spec2Isabelle
  imports Complex_Main "HOL-Library.Multiset"
begin

section \<open>Star analytics: the aggregation handler of GetStarAnalytics\<close>

text \<open>
  The development embeds the handler of the route
  \<^verbatim>\<open>/api/github/star-analytics/:owner/:repo\<close>: the page plan, the batched fetch loop
  with its rate-limit check, the in-memory cache and the construction of the daily and
  hourly series with their trend figures.

  Conventions of the embedding.
  \<^item> An instant (a JavaScript \<^verbatim>\<open>Date\<close>) is its number of milliseconds since the epoch,
    an \<open>int\<close>. A calendar day, which the source holds as the text \<^verbatim>\<open>YYYY-MM-DD\<close> cut from an
    ISO timestamp, is its number of days since 1970-01-01; an hour key, the text
    \<^verbatim>\<open>YYYY-MM-DDTHH:00:00Z\<close>, is its number of hours since the epoch. Both texts are in
    one-to-one correspondence with these numbers, and the maps of the source are only
    read by key.
  \<^item> \<^verbatim>\<open>setDate\<close> and \<^verbatim>\<open>setHours\<close> work on local time: the time zone of the process
    is a parameter of the embedding, and the loops step through it as the source does.
  \<^item> Counts are \<open>int\<close>; a JavaScript number that results from a division is a \<open>rat\<close>:
    double arithmetic is taken as exact, so that a quotient, \<^verbatim>\<open>Math.round\<close> and
    \<^verbatim>\<open>toFixed\<close> are those of the exact value.
\<close>

subsection \<open>Instants, days and hours\<close>

type_synonym instant = int
type_synonym day = int
type_synonym hour = int

definition MS_PER_DAY :: int where
  "MS_PER_DAY = 1000 * 60 * 60 * 24"

definition MS_PER_HOUR :: int where
  "MS_PER_HOUR = 1000 * 60 * 60"

text \<open>\<^verbatim>\<open>iso.split('T')[0]\<close>: the UTC calendar day of an instant.\<close>

definition iso_date :: "instant \<Rightarrow> day" where
  "iso_date t = t div MS_PER_DAY"

text \<open>\<^verbatim>\<open>iso.slice(0, 13) + ':00:00Z'\<close>: the UTC hour of an instant.\<close>

definition iso_hour :: "instant \<Rightarrow> hour" where
  "iso_hour t = t div MS_PER_HOUR"

text \<open>\<^verbatim>\<open>new Date('YYYY-MM-DD')\<close>: midnight UTC of a calendar day.\<close>

definition date_of_day :: "day \<Rightarrow> instant" where
  "date_of_day d = d * MS_PER_DAY"

subsection \<open>Local time\<close>

text \<open>
  The time zone of the process as ECMAScript reads it, a pair of functions: the first
  is \<^verbatim>\<open>LocalTZA(t, true)\<close>, the offset of local time from UTC in force at the
  instant \<open>t\<close>; the second is \<^verbatim>\<open>LocalTZA(t, false)\<close>, the offset with which the local
  time value \<open>t\<close> is read (at a skipped or repeated local time, the offset before
  the clock change). \<open>add_local z t ms\<close> is the instant reached from \<open>t\<close> by adding \<open>ms\<close>
  on the local clock. A zone is a pair in which a local hour and a local day later are
  later instants.
\<close>

type_synonym zone_rep = "(instant \<Rightarrow> int) \<times> (instant \<Rightarrow> int)"

definition add_local :: "zone_rep \<Rightarrow> instant \<Rightarrow> int \<Rightarrow> instant" where
  "add_local z t ms = (t + fst z t + ms) - snd z (t + fst z t + ms)"

definition advances :: "zone_rep \<Rightarrow> bool" where
  "advances z = (\<forall>t. t < add_local z t MS_PER_HOUR \<and> t < add_local z t MS_PER_DAY)"

typedef zone = "{z :: zone_rep. advances z}"
  by (rule exI [of _ "(\<lambda>t. 0, \<lambda>t. 0)"])
    (simp add: advances_def add_local_def MS_PER_HOUR_def MS_PER_DAY_def)

text \<open>\<^verbatim>\<open>LocalTime(t)\<close> and \<^verbatim>\<open>UTC(t)\<close> of ECMAScript.\<close>

definition LocalTime :: "zone \<Rightarrow> instant \<Rightarrow> int" where
  "LocalTime z t = t + fst (Rep_zone z) t"

definition UTC :: "zone \<Rightarrow> int \<Rightarrow> instant" where
  "UTC z t = t - snd (Rep_zone z) t"

text \<open>
  \<^verbatim>\<open>d.setDate(d.getDate() + n)\<close>: the local date moves by \<open>n\<close> days and the local time
  of day stays.
\<close>

definition setDate_plus :: "zone \<Rightarrow> instant \<Rightarrow> int \<Rightarrow> instant" where
  "setDate_plus z d n = UTC z (LocalTime z d + n * MS_PER_DAY)"

text \<open>\<^verbatim>\<open>h.setHours(h.getHours() + 1)\<close>\<close>

definition setHours_plus_1 :: "zone \<Rightarrow> instant \<Rightarrow> instant" where
  "setHours_plus_1 z h = UTC z (LocalTime z h + MS_PER_HOUR)"

text \<open>
  The day number of a civil date of the proleptic Gregorian calendar, used to write
  concrete dates.
\<close>

definition days_from_civil :: "int \<Rightarrow> int \<Rightarrow> int \<Rightarrow> day" where
  "days_from_civil y m d =
     (let y' = (if m \<le> 2 then y - 1 else y);
          era = y' div 400;
          yoe = y' - era * 400;
          mp = (m + 9) mod 12;
          doy = (153 * mp + 2) div 5 + d - 1;
          doe = yoe * 365 + yoe div 4 - yoe div 100 + doy
      in era * 146097 + doe - 719468)"

subsection \<open>The page plan (lines 120 to 145)\<close>

definition starsPerPage :: int where
  "starsPerPage = 100"

definition BATCH_SIZE :: nat where
  "BATCH_SIZE = 10"

text \<open>\<^verbatim>\<open>Math.ceil(totalStars / starsPerPage)\<close>\<close>

definition totalPages :: "int \<Rightarrow> int" where
  "totalPages totalStars = \<lceil>(of_int totalStars :: rat) / of_int starsPerPage\<rceil>"

definition maxPages :: "bool \<Rightarrow> int \<Rightarrow> int" where
  "maxPages fetchFull tp = (if fetchFull then tp else min 100 tp)"

text \<open>\<^verbatim>\<open>for (let i = lo; i <= hi; i++) pagesToFetch.push(i)\<close>\<close>

function push_pages :: "int \<Rightarrow> int \<Rightarrow> int list \<Rightarrow> int list" where
  "push_pages i hi pagesToFetch =
     (if i \<le> hi then push_pages (i + 1) hi (pagesToFetch @ [i]) else pagesToFetch)"
  by pat_completeness auto
termination
  by (relation "measure (\<lambda>(i, hi, _). nat (hi + 1 - i))") auto

declare push_pages.simps [simp del]

text \<open>\<^verbatim>\<open>for (let i = lo; i <= hi; i++) { if (i > 30) pagesToFetch.push(i) }\<close>\<close>

function push_tail_pages :: "int \<Rightarrow> int \<Rightarrow> int list \<Rightarrow> int list" where
  "push_tail_pages i hi pagesToFetch =
     (if i \<le> hi
      then push_tail_pages (i + 1) hi (if i > 30 then pagesToFetch @ [i] else pagesToFetch)
      else pagesToFetch)"
  by pat_completeness auto
termination
  by (relation "measure (\<lambda>(i, hi, _). nat (hi + 1 - i))") auto

declare push_tail_pages.simps [simp del]

definition plan_pages :: "int \<Rightarrow> bool \<Rightarrow> int list" where
  "plan_pages totalStars fetchFull =
     (let tp = totalPages totalStars;
          mp = maxPages fetchFull tp
      in if fetchFull \<or> tp \<le> 100
         then push_pages 1 (min tp mp) []
         else push_tail_pages (tp - 69) tp (push_pages 1 30 []))"

subsection \<open>Stargazers and the two count maps (lines 64 to 67, 190 to 208)\<close>

text \<open>
  \<open>starred_at\<close> is \<open>None\<close> when the field is absent or empty: the source tests
  \<^verbatim>\<open>if (sg.starred_at)\<close> before it reads it.
\<close>

record StargazerWithDate =
  starred_at :: "instant option"
  login :: string

text \<open>\<^verbatim>\<open>map.get(k) || 0\<close>\<close>

definition get_or_0 :: "(int \<rightharpoonup> int) \<Rightarrow> int \<Rightarrow> int" where
  "get_or_0 m k = (case m k of None \<Rightarrow> 0 | Some c \<Rightarrow> c)"

text \<open>\<^verbatim>\<open>map.set(k, (map.get(k) || 0) + 1)\<close>\<close>

definition bump :: "(int \<rightharpoonup> int) \<Rightarrow> int \<Rightarrow> (int \<rightharpoonup> int)" where
  "bump m k = m(k \<mapsto> get_or_0 m k + 1)"

text \<open>\<^verbatim>\<open>sevenDaysAgo.setDate(sevenDaysAgo.getDate() - 7)\<close> on a copy of \<^verbatim>\<open>today\<close>.\<close>

definition sevenDaysAgo :: "zone \<Rightarrow> instant \<Rightarrow> instant" where
  "sevenDaysAgo z today = setDate_plus z today (- 7)"

text \<open>The body of \<^verbatim>\<open>allStargazers.forEach\<close>; the pair is (starsByDate, starsByHour).\<close>

definition bucket_step ::
  "instant \<Rightarrow> (int \<rightharpoonup> int) \<times> (int \<rightharpoonup> int) \<Rightarrow> StargazerWithDate
     \<Rightarrow> (int \<rightharpoonup> int) \<times> (int \<rightharpoonup> int)" where
  "bucket_step sda b sg =
     (case starred_at sg of
        None \<Rightarrow> b
      | Some t \<Rightarrow>
          (bump (fst b) (iso_date t),
           if t \<ge> sda then bump (snd b) (iso_hour t) else snd b))"

definition bucket_stargazers ::
  "zone \<Rightarrow> instant \<Rightarrow> StargazerWithDate list \<Rightarrow> (int \<rightharpoonup> int) \<times> (int \<rightharpoonup> int)" where
  "bucket_stargazers z today allStargazers =
     foldl (bucket_step (sevenDaysAgo z today)) (Map.empty, Map.empty) allStargazers"

definition starsByDate ::
  "zone \<Rightarrow> instant \<Rightarrow> StargazerWithDate list \<Rightarrow> (int \<rightharpoonup> int)" where
  "starsByDate z today allStargazers = fst (bucket_stargazers z today allStargazers)"

definition starsByHour ::
  "zone \<Rightarrow> instant \<Rightarrow> StargazerWithDate list \<Rightarrow> (int \<rightharpoonup> int)" where
  "starsByHour z today allStargazers = snd (bucket_stargazers z today allStargazers)"

subsection \<open>The daily series (lines 210 to 236)\<close>

record DailyStar =
  date :: day
  daily :: int
  cumulative :: int

text \<open>
  The loop \<^verbatim>\<open>for (d = new Date(createdDate); d <= today; d.setDate(d.getDate() + 1))\<close>:
  \<open>d\<close> is stepped on the local clock and the entry is keyed by the UTC date of \<open>d\<close>. It
  returns the series and the final value of \<^verbatim>\<open>cumulative\<close>.
\<close>

function daily_loop ::
  "zone \<Rightarrow> (int \<rightharpoonup> int) \<Rightarrow> instant \<Rightarrow> instant \<Rightarrow> int \<Rightarrow> DailyStar list
     \<Rightarrow> DailyStar list \<times> int"
  where
  "daily_loop z byDate today d cum dailyHistory =
     (if d \<le> today
      then daily_loop z byDate today (setDate_plus z d 1)
             (cum + get_or_0 byDate (iso_date d))
             (dailyHistory @
                [\<lparr>date = iso_date d,
                  daily = get_or_0 byDate (iso_date d),
                  cumulative = cum + get_or_0 byDate (iso_date d)\<rparr>])
      else (dailyHistory, cum))"
  by pat_completeness auto
termination
proof (relation "measure (\<lambda>(z, byDate, today, d, cum, dh). nat (today + 1 - d))")
  show "wf (measure (\<lambda>(z, byDate, today, d, cum, dh). nat (today + 1 - d)))"
    by simp
next
  fix z :: zone and byDate :: "int \<rightharpoonup> int" and today d cum :: int
    and dailyHistory :: "DailyStar list"
  assume le: "d \<le> today"
  have "advances (Rep_zone z)" using Rep_zone [of z] by simp
  then have "d < setDate_plus z d 1"
    by (simp add: advances_def add_local_def setDate_plus_def UTC_def LocalTime_def)
  then show "((z, byDate, today, setDate_plus z d 1, cum + get_or_0 byDate (iso_date d),
       dailyHistory @
         [\<lparr>date = iso_date d, daily = get_or_0 byDate (iso_date d),
           cumulative = cum + get_or_0 byDate (iso_date d)\<rparr>]),
      z, byDate, today, d, cum, dailyHistory)
    \<in> measure (\<lambda>(z, byDate, today, d, cum, dh). nat (today + 1 - d))"
    using le by simp
qed

declare daily_loop.simps [simp del]

text \<open>\<^verbatim>\<open>Math.round\<close>: the nearest integer, a tie going up.\<close>

definition js_round :: "rat \<Rightarrow> int" where
  "js_round x = \<lfloor>x + 1 / 2\<rfloor>"

text \<open>The unscaled series and the observed total, the final \<^verbatim>\<open>cumulative\<close>.\<close>

definition unscaled_history ::
  "zone \<Rightarrow> StargazerWithDate list \<Rightarrow> day \<Rightarrow> instant \<Rightarrow> DailyStar list" where
  "unscaled_history z allStargazers createdAt today =
     fst (daily_loop z (starsByDate z today allStargazers) today (date_of_day createdAt) 0 [])"

definition observedTotal :: "zone \<Rightarrow> StargazerWithDate list \<Rightarrow> day \<Rightarrow> instant \<Rightarrow> int" where
  "observedTotal z allStargazers createdAt today =
     snd (daily_loop z (starsByDate z today allStargazers) today (date_of_day createdAt) 0 [])"

text \<open>
  \<^verbatim>\<open>const dataCompleteness = totalStars > 0 ? (cumulative / totalStars) * 100 : 100\<close>
\<close>

definition completeness :: "int \<Rightarrow> int \<Rightarrow> rat" where
  "completeness totalStars cum =
     (if totalStars > 0 then (of_int cum / of_int totalStars) * 100 else 100)"

definition scale_cumulative :: "int \<Rightarrow> int \<Rightarrow> DailyStar list \<Rightarrow> DailyStar list" where
  "scale_cumulative totalStars cum dailyHistory =
     (if cum < totalStars \<and> cum > 0
      then let scaleFactor = (of_int totalStars :: rat) / of_int cum
           in map (\<lambda>d. d\<lparr>cumulative := js_round (of_int (cumulative d) * scaleFactor)\<rparr>)
                dailyHistory
      else dailyHistory)"

definition daily_history ::
  "zone \<Rightarrow> StargazerWithDate list \<Rightarrow> int \<Rightarrow> day \<Rightarrow> instant \<Rightarrow> DailyStar list" where
  "daily_history z allStargazers totalStars createdAt today =
     scale_cumulative totalStars (observedTotal z allStargazers createdAt today)
       (unscaled_history z allStargazers createdAt today)"

subsection \<open>The hourly series (lines 238 to 246)\<close>

record HourlyStar =
  hour :: hour
  stars :: int

text \<open>
  The loop \<^verbatim>\<open>for (h = new Date(sevenDaysAgo); h <= today; h.setHours(h.getHours() + 1))\<close>,
  stepped on the local clock and keyed by the UTC hour.
\<close>

function hourly_loop ::
  "zone \<Rightarrow> (int \<rightharpoonup> int) \<Rightarrow> instant \<Rightarrow> instant \<Rightarrow> HourlyStar list \<Rightarrow> HourlyStar list"
  where
  "hourly_loop z byHour today h hourlyActivity =
     (if h \<le> today
      then hourly_loop z byHour today (setHours_plus_1 z h)
             (hourlyActivity @
                [\<lparr>hour = iso_hour h, stars = get_or_0 byHour (iso_hour h)\<rparr>])
      else hourlyActivity)"
  by pat_completeness auto
termination
proof (relation "measure (\<lambda>(z, byHour, today, h, acc). nat (today + 1 - h))")
  show "wf (measure (\<lambda>(z, byHour, today, h, acc). nat (today + 1 - h)))"
    by simp
next
  fix z :: zone and byHour :: "int \<rightharpoonup> int" and today h :: int
    and hourlyActivity :: "HourlyStar list"
  assume le: "h \<le> today"
  have "advances (Rep_zone z)" using Rep_zone [of z] by simp
  then have "h < setHours_plus_1 z h"
    by (simp add: advances_def add_local_def setHours_plus_1_def UTC_def LocalTime_def)
  then show "((z, byHour, today, setHours_plus_1 z h,
       hourlyActivity @ [\<lparr>hour = iso_hour h, stars = get_or_0 byHour (iso_hour h)\<rparr>]),
      z, byHour, today, h, hourlyActivity)
    \<in> measure (\<lambda>(z, byHour, today, h, acc). nat (today + 1 - h))"
    using le by simp
qed

declare hourly_loop.simps [simp del]

definition hourly_activity ::
  "zone \<Rightarrow> StargazerWithDate list \<Rightarrow> instant \<Rightarrow> HourlyStar list" where
  "hourly_activity z allStargazers today =
     hourly_loop z (starsByHour z today allStargazers) today (sevenDaysAgo z today) []"

subsection \<open>Trends (lines 248 to 280)\<close>

datatype Trend = Up | Down | Stable

text \<open>
  \<^verbatim>\<open>Array.prototype.slice(start, end)\<close>: a negative index counts from the end, and both
  are clamped to the array.
\<close>

definition js_slice :: "int \<Rightarrow> int \<Rightarrow> 'a list \<Rightarrow> 'a list" where
  "js_slice start end xs =
     (let len = int (length xs);
          k = (if start < 0 then max (len + start) 0 else min start len);
          final = (if end < 0 then max (len + end) 0 else min end len)
      in take (nat (final - k)) (drop (nat k) xs))"

text \<open>\<^verbatim>\<open>slice(start)\<close>: the end is the length.\<close>

definition js_slice_from :: "int \<Rightarrow> 'a list \<Rightarrow> 'a list" where
  "js_slice_from start xs = js_slice start (int (length xs)) xs"

definition last7 :: "DailyStar list \<Rightarrow> DailyStar list" where
  "last7 dailyHistory = js_slice_from (- 7) dailyHistory"

definition last30 :: "DailyStar list \<Rightarrow> DailyStar list" where
  "last30 dailyHistory = js_slice_from (- 30) dailyHistory"

definition prev30 :: "DailyStar list \<Rightarrow> DailyStar list" where
  "prev30 dailyHistory = js_slice (- 60) (- 30) dailyHistory"

text \<open>\<^verbatim>\<open>xs.reduce((a, b) => a + b.daily, 0)\<close>\<close>

definition sum_daily :: "DailyStar list \<Rightarrow> int" where
  "sum_daily xs = foldl (\<lambda>a b. a + daily b) 0 xs"

text \<open>\<^verbatim>\<open>xs.length > 0 ? sum / xs.length : 0\<close>\<close>

definition average :: "DailyStar list \<Rightarrow> rat" where
  "average xs = (if length xs > 0 then of_int (sum_daily xs) / of_nat (length xs) else 0)"

definition peak_day :: "day \<Rightarrow> DailyStar list \<Rightarrow> DailyStar" where
  "peak_day createdAt dailyHistory =
     foldl (\<lambda>mx dy. if daily dy > daily mx then dy else mx)
       \<lparr>date = createdAt, daily = 0, cumulative = 0\<rparr> dailyHistory"

text \<open>Lines 267 to 274, as a function of \<^verbatim>\<open>sum30\<close> and \<^verbatim>\<open>sumPrev30\<close>.\<close>

definition trend_detection :: "int \<Rightarrow> int \<Rightarrow> Trend" where
  "trend_detection sum30 sumPrev30 =
     (if sumPrev30 > 0
      then let change = (of_int (sum30 - sumPrev30) :: rat) / of_int sumPrev30
           in if change > 1 / 10 then Up
              else if change < - (1 / 10) then Down
              else Stable
      else if sum30 > 10 then Up
      else Stable)"

definition growth_rate :: "int \<Rightarrow> DailyStar list \<Rightarrow> rat" where
  "growth_rate totalStars l30 =
     (let startStars = (case l30 of [] \<Rightarrow> totalStars | d # _ \<Rightarrow> cumulative d)
      in if startStars > 0
         then (of_int (totalStars - startStars) / of_int startStars) * 100
         else 0)"

text \<open>
  \<^verbatim>\<open>parseFloat(x.toFixed(f))\<close>: the nearest multiple of \<open>10^-f\<close>, a tie going away from
  zero.
\<close>

definition to_fixed :: "nat \<Rightarrow> rat \<Rightarrow> rat" where
  "to_fixed f x =
     (if x < 0 then - (of_int \<lfloor>(- x) * 10 ^ f + 1 / 2\<rfloor> / 10 ^ f)
      else of_int \<lfloor>x * 10 ^ f + 1 / 2\<rfloor> / 10 ^ f)"

record Trends =
  avg7d :: rat
  avg30d :: rat
  peakDay_date :: day
  peakDay_stars :: int
  velocity :: rat
  trend :: Trend
  growthRate :: rat

definition compute_trends :: "int \<Rightarrow> day \<Rightarrow> DailyStar list \<Rightarrow> Trends" where
  "compute_trends totalStars createdAt dailyHistory =
     \<lparr>avg7d = to_fixed 2 (average (last7 dailyHistory)),
      avg30d = to_fixed 2 (average (last30 dailyHistory)),
      peakDay_date = date (peak_day createdAt dailyHistory),
      peakDay_stars = daily (peak_day createdAt dailyHistory),
      velocity = to_fixed 2 (average (last7 dailyHistory)),
      trend = trend_detection (sum_daily (last30 dailyHistory))
                (sum_daily (prev30 dailyHistory)),
      growthRate = to_fixed 2 (growth_rate totalStars (last30 dailyHistory))\<rparr>"

subsection \<open>Age and average (lines 104 to 108)\<close>

text \<open>
  A division by zero does not raise in JavaScript: its value is an infinity or NaN. The
  quotient of the average is computed with a checked division, \<open>None\<close> standing for such
  a value, so that the field being a finite number is a statement about the model. The
  other quotients of the handler are written under the guards of the source.
\<close>

definition js_div :: "rat \<Rightarrow> rat \<Rightarrow> rat option" where
  "js_div a b = (if b = 0 then None else Some (a / b))"

definition age_in_days :: "day \<Rightarrow> instant \<Rightarrow> int" where
  "age_in_days createdAt today =
     \<lfloor>(of_int (today - date_of_day createdAt) :: rat) / of_int MS_PER_DAY\<rfloor>"

definition avg_stars_per_day :: "int \<Rightarrow> int \<Rightarrow> rat option" where
  "avg_stars_per_day totalStars ageInDays =
     (if ageInDays > 0 then js_div (of_int totalStars) (of_int ageInDays)
      else Some (of_int totalStars))"

subsection \<open>The response body (lines 292 to 317)\<close>

record Body =
  owner :: string
  repo :: string
  totalStars :: int
  createdAt :: day
  ageInDays :: int
  avgStarsPerDay :: "rat option"
  dailyHistory :: "DailyStar list"
  hourlyActivity :: "HourlyStar list"
  trends :: Trends
  recentActivity :: "DailyStar list"
  dataCompleteness :: rat

text \<open>
  The time-series builder: everything the handler computes from the stargazers, the
  reported total, the creation day and the instant of the request, in the time zone of
  the process.
\<close>

definition build_analytics ::
  "zone \<Rightarrow> string \<Rightarrow> string \<Rightarrow> StargazerWithDate list \<Rightarrow> int \<Rightarrow> day \<Rightarrow> instant \<Rightarrow> Body"
  where
  "build_analytics z ow rp allStargazers totalStars0 created today =
     \<lparr>owner = ow,
      repo = rp,
      totalStars = totalStars0,
      createdAt = created,
      ageInDays = age_in_days created today,
      avgStarsPerDay =
        map_option (to_fixed 2) (avg_stars_per_day totalStars0 (age_in_days created today)),
      dailyHistory = daily_history z allStargazers totalStars0 created today,
      hourlyActivity = hourly_activity z allStargazers today,
      trends =
        compute_trends totalStars0 created
          (daily_history z allStargazers totalStars0 created today),
      recentActivity = last30 (daily_history z allStargazers totalStars0 created today),
      dataCompleteness =
        to_fixed 1 (completeness totalStars0 (observedTotal z allStargazers created today))\<rparr>"

subsection \<open>The outside world: responses and clock readings\<close>

text \<open>
  A \<^verbatim>\<open>fetch\<close> either rejects with an \<^verbatim>\<open>Error\<close>, whose message is the \<open>Inl\<close> value, or
  resolves to a response. The request headers do not enter the model: they select no
  branch of the handler.
\<close>

record 'a response =
  status :: nat
  statusText :: string
  json :: 'a

definition ok :: "'a response \<Rightarrow> bool" where
  "ok r = (200 \<le> status r \<and> status r \<le> 299)"

record repo_data =
  stargazers_count :: int
  created_at :: instant

text \<open>
  \<open>get_rate_limit w i\<close> is the answer of the rate-limit endpoint when it is asked after
  the batch that starts at index \<open>i\<close> of the plan; its JSON is the value of
  \<^verbatim>\<open>resources?.core?.remaining\<close>, \<open>None\<close> when that path is undefined. The three clock
  readings are \<^verbatim>\<open>new Date()\<close> of line 106 and \<^verbatim>\<open>Date.now()\<close> of lines 114 and 184;
  \<open>local_zone\<close> is the time zone of the process.
\<close>

record world =
  get_repo :: "string + repo_data response"
  get_page :: "int \<Rightarrow> string + StargazerWithDate list response"
  get_rate_limit :: "nat \<Rightarrow> string + int option response"
  local_zone :: zone
  now_today :: instant
  now_cache_check :: instant
  now_cache_store :: instant

subsection \<open>Fetching the pages in batches (lines 147 to 180)\<close>

datatype page_outcome = PageOk | RateLimited | PageError

text \<open>
  The callback of \<^verbatim>\<open>batch.map\<close> once the response is there. The first component names
  the branch taken (403 is logged as a rate limit hit); only the list is returned to
  the loop.
\<close>

definition page_result ::
  "StargazerWithDate list response \<Rightarrow> page_outcome \<times> StargazerWithDate list" where
  "page_result r =
     (if status r = 403 then (RateLimited, [])
      else if \<not> ok r then (PageError, [])
      else (PageOk, json r))"

definition fetch_page ::
  "world \<Rightarrow> int \<Rightarrow> string + page_outcome \<times> StargazerWithDate list" where
  "fetch_page w page =
     (case get_page w page of Inl e \<Rightarrow> Inl e | Inr r \<Rightarrow> Inr (page_result r))"

text \<open>
  \<^verbatim>\<open>Promise.all\<close>: the results in the order of the promises, or the rejection of one
  of them. Which rejection wins is a matter of timing; the embedding takes the first in
  page order, and only the text of the error response depends on it.
\<close>

fun promise_all :: "(string + 'a) list \<Rightarrow> string + 'a list" where
  "promise_all [] = Inr []"
| "promise_all (Inl e # ps) = Inl e"
| "promise_all (Inr x # ps) =
     (case promise_all ps of Inl e \<Rightarrow> Inl e | Inr xs \<Rightarrow> Inr (x # xs))"

text \<open>\<^verbatim>\<open>rateData.resources?.core?.remaining < 10\<close>; \<^verbatim>\<open>undefined < 10\<close> is false.\<close>

definition remaining_below_10 :: "int option \<Rightarrow> bool" where
  "remaining_below_10 remaining = (case remaining of None \<Rightarrow> False | Some n \<Rightarrow> n < 10)"

text \<open>
  What happened in one batch, kept as a trace beside the result of the loop: the pages
  asked for, how each page promise settled (rejected, or fulfilled with the branch the
  callback took and the list it returned), and whether the rate-limit endpoint was
  asked afterwards. Every batch the loop starts gets an entry, also a batch whose
  \<^verbatim>\<open>Promise.all\<close> rejects: all its fetches are issued, the exception leaves the loop and
  the endpoint is not asked.
\<close>

datatype quota_check = NotQueried | QueryRejected string | Queried "int option"

record batch_log =
  pages :: "int list"
  answers :: "(string + page_outcome \<times> StargazerWithDate list) list"
  quota :: quota_check

function batch_loop ::
  "world \<Rightarrow> int list \<Rightarrow> nat \<Rightarrow> StargazerWithDate list \<Rightarrow> batch_log list
     \<Rightarrow> (string + StargazerWithDate list) \<times> batch_log list" where
  "batch_loop w pagesToFetch i allStargazers trace =
     (if i < length pagesToFetch
      then
        (case promise_all (map (fetch_page w) (take BATCH_SIZE (drop i pagesToFetch))) of
           Inl e \<Rightarrow>
             (Inl e,
              trace @ [\<lparr>pages = take BATCH_SIZE (drop i pagesToFetch),
                        answers = map (fetch_page w) (take BATCH_SIZE (drop i pagesToFetch)),
                        quota = NotQueried\<rparr>])
         | Inr rs \<Rightarrow>
             (if list_ex (\<lambda>r. r = []) (map snd rs)
              then
                (case get_rate_limit w i of
                   Inl e \<Rightarrow>
                     (Inl e,
                      trace @ [\<lparr>pages = take BATCH_SIZE (drop i pagesToFetch),
                                answers = map Inr rs, quota = QueryRejected e\<rparr>])
                 | Inr rateCheck \<Rightarrow>
                     (if remaining_below_10 (json rateCheck)
                      then
                        (Inr (allStargazers @ concat (map snd rs)),
                         trace @ [\<lparr>pages = take BATCH_SIZE (drop i pagesToFetch),
                                   answers = map Inr rs,
                                   quota = Queried (json rateCheck)\<rparr>])
                      else
                        batch_loop w pagesToFetch (i + BATCH_SIZE)
                          (allStargazers @ concat (map snd rs))
                          (trace @ [\<lparr>pages = take BATCH_SIZE (drop i pagesToFetch),
                                     answers = map Inr rs,
                                     quota = Queried (json rateCheck)\<rparr>])))
              else
                batch_loop w pagesToFetch (i + BATCH_SIZE)
                  (allStargazers @ concat (map snd rs))
                  (trace @ [\<lparr>pages = take BATCH_SIZE (drop i pagesToFetch),
                             answers = map Inr rs, quota = NotQueried\<rparr>])))
      else (Inr allStargazers, trace))"
  by pat_completeness auto
termination
  by (relation "measure (\<lambda>(_, pagesToFetch, i, _, _). length pagesToFetch - i)")
    (auto simp: BATCH_SIZE_def)

declare batch_loop.simps [simp del]

subsection \<open>The cache (lines 69 to 71, 110 to 117, 182 to 186)\<close>

record cache_entry =
  timestamp :: instant
  data :: "StargazerWithDate list"

type_synonym star_cache = "string \<rightharpoonup> cache_entry"

definition CACHE_TTL :: int where
  "CACHE_TTL = 7 * 24 * 60 * 60 * 1000"

text \<open>\<^verbatim>\<open>cached && (Date.now() - cached.timestamp < CACHE_TTL)\<close>\<close>

definition cache_hit :: "star_cache \<Rightarrow> string \<Rightarrow> instant \<Rightarrow> cache_entry option" where
  "cache_hit starCache cacheKey now =
     (case starCache cacheKey of
        None \<Rightarrow> None
      | Some cached \<Rightarrow> if now - timestamp cached < CACHE_TTL then Some cached else None)"

text \<open>\<^verbatim>\<open>if (allStargazers.length > 0) starCache.set(cacheKey, ...)\<close>\<close>

definition cache_store ::
  "star_cache \<Rightarrow> string \<Rightarrow> instant \<Rightarrow> StargazerWithDate list \<Rightarrow> star_cache" where
  "cache_store starCache cacheKey now allStargazers =
     (if length allStargazers > 0
      then starCache(cacheKey \<mapsto> \<lparr>timestamp = now, data = allStargazers\<rparr>)
      else starCache)"

subsection \<open>The handler (lines 73 to 334)\<close>

record request =
  path_owner :: string
  path_repo :: string
  query_full :: "string option"

datatype http_result = Success Body | Failure nat string

text \<open>\<^verbatim>\<open>message.includes(sub)\<close>\<close>

fun str_includes :: "string \<Rightarrow> string \<Rightarrow> bool" where
  "str_includes [] sub = (sub = [])"
| "str_includes (c # cs) sub = (take (length sub) (c # cs) = sub \<or> str_includes cs sub)"

text \<open>The \<^verbatim>\<open>catch\<close> block.\<close>

definition on_error :: "string \<Rightarrow> http_result" where
  "on_error message =
     (if str_includes message ''rate limit''
      then Failure 403 ''GitHub API rate limit exceeded. Please provide a token.''
      else Failure 500 message)"

text \<open>
  The fetch phase of a cache miss, from the plan to the end of the batch loop.
\<close>

definition fetch_stargazers ::
  "world \<Rightarrow> int \<Rightarrow> bool \<Rightarrow> (string + StargazerWithDate list) \<times> batch_log list" where
  "fetch_stargazers w totalStars0 full = batch_loop w (plan_pages totalStars0 full) 0 [] []"

definition cacheKey :: "request \<Rightarrow> string" where
  "cacheKey req = path_owner req @ ''/'' @ path_repo req"

text \<open>\<^verbatim>\<open>req.queryParams.full === 'true'\<close>\<close>

definition fetchFull :: "request \<Rightarrow> bool" where
  "fetchFull req = (query_full req = Some ''true'')"

definition respond ::
  "request \<Rightarrow> world \<Rightarrow> repo_data \<Rightarrow> StargazerWithDate list \<Rightarrow> http_result" where
  "respond req w repoData allStargazers =
     Success (build_analytics (local_zone w) (path_owner req) (path_repo req) allStargazers
                (stargazers_count repoData) (iso_date (created_at repoData)) (now_today w))"

text \<open>
  The handler returns the response, the cache after the request and the trace of the
  batches it ran. \<open>with_repo\<close> is the handler from the cache check on, once the repository
  data is there.
\<close>

definition with_repo ::
  "request \<Rightarrow> world \<Rightarrow> star_cache \<Rightarrow> repo_data
     \<Rightarrow> http_result \<times> star_cache \<times> batch_log list" where
  "with_repo req w starCache repoData =
     (case cache_hit starCache (cacheKey req) (now_cache_check w) of
        Some cached \<Rightarrow> (respond req w repoData (data cached), starCache, [])
      | None \<Rightarrow>
          (case fst (fetch_stargazers w (stargazers_count repoData) (fetchFull req)) of
             Inl e \<Rightarrow>
               (on_error e, starCache,
                snd (fetch_stargazers w (stargazers_count repoData) (fetchFull req)))
           | Inr allStargazers \<Rightarrow>
               (respond req w repoData allStargazers,
                cache_store starCache (cacheKey req) (now_cache_store w) allStargazers,
                snd (fetch_stargazers w (stargazers_count repoData) (fetchFull req)))))"

definition handler ::
  "request \<Rightarrow> world \<Rightarrow> star_cache \<Rightarrow> http_result \<times> star_cache \<times> batch_log list" where
  "handler req w starCache =
     (case get_repo w of
        Inl e \<Rightarrow> (on_error e, starCache, [])
      | Inr repoResponse \<Rightarrow>
          if \<not> ok repoResponse
          then (on_error (''Failed to fetch repo: '' @ statusText repoResponse), starCache, [])
          else with_repo req w starCache (json repoResponse))"

subsection \<open>Notions used to state the properties\<close>

text \<open>
  The instants the daily loop visits, and the series over a list of day keys with the
  function that reads the count of a day: the loop of the handler is shown to compute
  the series over the UTC dates of the instants it visits.
\<close>

function day_steps :: "zone \<Rightarrow> instant \<Rightarrow> instant \<Rightarrow> instant list" where
  "day_steps z today d =
     (if d \<le> today then d # day_steps z today (setDate_plus z d 1) else [])"
  by pat_completeness auto
termination
proof (relation "measure (\<lambda>(z, today, d). nat (today + 1 - d))")
  show "wf (measure (\<lambda>(z, today, d). nat (today + 1 - d)))"
    by simp
next
  fix z :: zone and today d :: int
  assume le: "d \<le> today"
  have "advances (Rep_zone z)" using Rep_zone [of z] by simp
  then have "d < setDate_plus z d 1"
    by (simp add: advances_def add_local_def setDate_plus_def UTC_def LocalTime_def)
  then show "((z, today, setDate_plus z d 1), z, today, d)
    \<in> measure (\<lambda>(z, today, d). nat (today + 1 - d))"
    using le by simp
qed

declare day_steps.simps [simp del]

definition visited_days :: "zone \<Rightarrow> day \<Rightarrow> instant \<Rightarrow> day list" where
  "visited_days z created today = map iso_date (day_steps z today (date_of_day created))"

fun series :: "(int \<Rightarrow> int) \<Rightarrow> int \<Rightarrow> day list \<Rightarrow> DailyStar list" where
  "series g cum [] = []"
| "series g cum (k # ks) =
     \<lparr>date = k, daily = g k, cumulative = cum + g k\<rparr> # series g (cum + g k) ks"

fun series_total :: "(int \<Rightarrow> int) \<Rightarrow> int \<Rightarrow> day list \<Rightarrow> int" where
  "series_total g cum [] = cum"
| "series_total g cum (k # ks) = series_total g (cum + g k) ks"

text \<open>The stargazers of a day, and of an hour of the trailing window.\<close>

definition on_day :: "day \<Rightarrow> StargazerWithDate \<Rightarrow> bool" where
  "on_day k sg = (case starred_at sg of None \<Rightarrow> False | Some t \<Rightarrow> iso_date t = k)"

definition in_hour :: "instant \<Rightarrow> hour \<Rightarrow> StargazerWithDate \<Rightarrow> bool" where
  "in_hour sda k sg =
     (case starred_at sg of None \<Rightarrow> False | Some t \<Rightarrow> sda \<le> t \<and> iso_hour t = k)"

definition stars_on :: "day \<Rightarrow> StargazerWithDate list \<Rightarrow> int" where
  "stars_on k evs = int (length (filter (on_day k) evs))"

definition stars_in :: "instant \<Rightarrow> hour \<Rightarrow> StargazerWithDate list \<Rightarrow> int" where
  "stars_in sda k evs = int (length (filter (in_hour sda k) evs))"

text \<open>The number of calendar days from the creation day to the day of the request.\<close>

definition days_between :: "day \<Rightarrow> instant \<Rightarrow> nat" where
  "days_between created today = nat (iso_date today - created + 1)"

text \<open>
  No clock change of the zone is met between two instants: from every instant between
  them, the same local time on the next local day is 24 hours later.
\<close>

definition no_clock_change :: "zone \<Rightarrow> instant \<Rightarrow> instant \<Rightarrow> bool" where
  "no_clock_change z lo hi =
     (\<forall>d. lo \<le> d \<and> d \<le> hi \<longrightarrow> setDate_plus z d 1 = d + MS_PER_DAY)"

text \<open>
  Two zones: UTC, and New York in 2024, five hours behind UTC and four hours behind
  from 2024-03-10T07:00Z to 2024-11-03T06:00Z. Local times from 03:00 of 2024-03-10
  up to 02:00 of 2024-11-03 are read as daylight time.
\<close>

definition utc_zone :: zone where
  "utc_zone = Abs_zone (\<lambda>t. 0, \<lambda>t. 0)"

definition new_york_rep :: zone_rep where
  "new_york_rep =
     (\<lambda>t. if date_of_day (days_from_civil 2024 3 10) + 7 * MS_PER_HOUR \<le> t
             \<and> t < date_of_day (days_from_civil 2024 11 3) + 6 * MS_PER_HOUR
           then - 4 * MS_PER_HOUR else - 5 * MS_PER_HOUR,
      \<lambda>t. if date_of_day (days_from_civil 2024 3 10) + 3 * MS_PER_HOUR \<le> t
             \<and> t < date_of_day (days_from_civil 2024 11 3) + 2 * MS_PER_HOUR
           then - 4 * MS_PER_HOUR else - 5 * MS_PER_HOUR)"

definition new_york_2024 :: zone where
  "new_york_2024 = Abs_zone new_york_rep"

text \<open>
  The window of the examples: created on 2024-01-01, asked at noon of 2024-01-03, with
  stars given on 2024-01-02 at 10:00 and at 11:00.
\<close>

definition ex_created :: day where
  "ex_created = days_from_civil 2024 1 1"

definition ex_today :: instant where
  "ex_today = date_of_day (days_from_civil 2024 1 3) + 12 * MS_PER_HOUR"

definition ex_star_10h :: StargazerWithDate where
  "ex_star_10h =
     \<lparr>starred_at = Some (date_of_day (days_from_civil 2024 1 2) + 10 * MS_PER_HOUR),
      login = ''alice''\<rparr>"

definition ex_star_11h :: StargazerWithDate where
  "ex_star_11h =
     \<lparr>starred_at = Some (date_of_day (days_from_civil 2024 1 2) + 11 * MS_PER_HOUR),
      login = ''bob''\<rparr>"

text \<open>
  A window across the clock change of March: created on 2024-03-08, asked on
  2024-03-12 at 12:00Z, with one star given on 2024-03-10 at 15:00Z.
\<close>

definition march_created :: day where
  "march_created = days_from_civil 2024 3 8"

definition march_today :: instant where
  "march_today = date_of_day (days_from_civil 2024 3 12) + 12 * MS_PER_HOUR"

definition march_star :: StargazerWithDate where
  "march_star =
     \<lparr>starred_at = Some (date_of_day (days_from_civil 2024 3 10) + 15 * MS_PER_HOUR),
      login = ''carol''\<rparr>"

text \<open>
  The direction of growth in the words of the specification: \<open>sum30\<close> is the sum of the
  last 30 daily counts, \<open>sumPrev30\<close> the sum of the 30 before them.
\<close>

definition spec_sum30 :: "DailyStar list \<Rightarrow> int" where
  "spec_sum30 dh = sum_list (map daily (take 30 (rev dh)))"

definition spec_sumPrev30 :: "DailyStar list \<Rightarrow> int" where
  "spec_sumPrev30 dh = sum_list (map daily (take 30 (drop 30 (rev dh))))"

definition spec_direction :: "int \<Rightarrow> int \<Rightarrow> Trend" where
  "spec_direction sum30 sumPrev30 =
     (if sumPrev30 = 0 then (if sum30 > 10 then Up else Stable)
      else if ((of_int sum30 :: rat) - of_int sumPrev30) / of_int sumPrev30 > 10 / 100 then Up
      else if ((of_int sum30 :: rat) - of_int sumPrev30) / of_int sumPrev30 < - (10 / 100) then Down
      else Stable)"

text \<open>
  Notions about the trace of the batch loop: the fulfilled promises of a batch, with
  the branches their callbacks took and the lists they returned; a batch all of whose
  promises are fulfilled; the batches of a plan as the loop cuts them; the entry of a
  batch; a batch that stops the loop; an entry that agrees with the answers of the world; and what holds
  of the entries \<open>new\<close> that a run appends, of its result \<open>res\<close> and of the batches
  \<open>bs\<close> left to run.
\<close>

fun settled :: "(string + 'a) list \<Rightarrow> 'a list" where
  "settled [] = []"
| "settled (Inl e # xs) = settled xs"
| "settled (Inr x # xs) = x # settled xs"

definition outcomes :: "batch_log \<Rightarrow> page_outcome list" where
  "outcomes b = map fst (settled (answers b))"

definition results :: "batch_log \<Rightarrow> StargazerWithDate list list" where
  "results b = map snd (settled (answers b))"

definition fulfilled :: "batch_log \<Rightarrow> bool" where
  "fulfilled b = list_all (\<lambda>a. \<not> isl a) (answers b)"

function plan_batches :: "int list \<Rightarrow> nat \<Rightarrow> int list list" where
  "plan_batches ps i =
     (if i < length ps
      then take BATCH_SIZE (drop i ps) # plan_batches ps (i + BATCH_SIZE)
      else [])"
  by pat_completeness auto
termination
  by (relation "measure (\<lambda>(ps, i). length ps - i)") (auto simp: BATCH_SIZE_def)

declare plan_batches.simps [simp del]

definition batch_entry ::
  "int list \<Rightarrow> (string + page_outcome \<times> StargazerWithDate list) list \<Rightarrow> quota_check
     \<Rightarrow> batch_log" where
  "batch_entry batch as q = \<lparr>pages = batch, answers = as, quota = q\<rparr>"

definition stops :: "batch_log \<Rightarrow> bool" where
  "stops b = (case quota b of Queried q \<Rightarrow> remaining_below_10 q | _ \<Rightarrow> False)"

definition entry_ok :: "world \<Rightarrow> batch_log \<Rightarrow> bool" where
  "entry_ok w b =
     (answers b = map (fetch_page w) (pages b)
      \<and> ((quota b \<noteq> NotQueried) = (fulfilled b \<and> [] \<in> set (results b))))"

definition run_ok ::
  "world \<Rightarrow> int list list \<Rightarrow> StargazerWithDate list \<Rightarrow> batch_log list
     \<Rightarrow> string + StargazerWithDate list \<Rightarrow> bool" where
  "run_ok w bs allStargazers new res =
     ((\<forall>b\<in>set new. entry_ok w b)
      \<and> (\<forall>b\<in>set (butlast new). \<not> stops b \<and> fulfilled b)
      \<and> (\<forall>evs. res = Inr evs \<longrightarrow>
            evs = allStargazers @ concat (concat (map results new))
            \<and> (\<forall>b\<in>set new. fulfilled b))
      \<and> (new \<noteq> [] \<and> stops (last new) \<longrightarrow> (\<exists>evs. res = Inr evs))
      \<and> map pages new = take (length new) bs)"

text \<open>Concrete requests and worlds for the examples, all in UTC.\<close>

definition ex_req :: request where
  "ex_req = \<lparr>path_owner = ''octo'', path_repo = ''cat'', query_full = None\<rparr>"

definition ex_repo :: "int \<Rightarrow> string + repo_data response" where
  "ex_repo n = Inr \<lparr>status = 200, statusText = ''OK'',
                    json = \<lparr>stargazers_count = n, created_at = date_of_day ex_created\<rparr>\<rparr>"

definition ex_rate :: "int \<Rightarrow> nat \<Rightarrow> string + int option response" where
  "ex_rate n i = Inr \<lparr>status = 200, statusText = ''OK'', json = Some n\<rparr>"

text \<open>50 stars reported, every page answers 500, plenty of quota left.\<close>

definition ex_world_error :: world where
  "ex_world_error =
     \<lparr>get_repo = ex_repo 50,
      get_page = (\<lambda>p. Inr \<lparr>status = 500, statusText = ''Internal Server Error'', json = []\<rparr>),
      get_rate_limit = ex_rate 4000,
      local_zone = utc_zone,
      now_today = ex_today, now_cache_check = ex_today, now_cache_store = ex_today\<rparr>"

text \<open>150 stars reported, page 1 holds two stars, page 2 answers 403, 5 requests left.\<close>

definition ex_world_limited :: world where
  "ex_world_limited =
     \<lparr>get_repo = ex_repo 150,
      get_page = (\<lambda>p. if p = 1
                       then Inr \<lparr>status = 200, statusText = ''OK'',
                                 json = [ex_star_10h, ex_star_11h]\<rparr>
                       else Inr \<lparr>status = 403, statusText = ''Forbidden'', json = []\<rparr>),
      get_rate_limit = ex_rate 5,
      local_zone = utc_zone,
      now_today = ex_today, now_cache_check = ex_today, now_cache_store = ex_today\<rparr>"

text \<open>150 stars reported, page 1 answers 403 and the fetch of page 2 rejects.\<close>

definition ex_world_abort :: world where
  "ex_world_abort =
     \<lparr>get_repo = ex_repo 150,
      get_page = (\<lambda>p. if p = 1
                       then Inr \<lparr>status = 403, statusText = ''Forbidden'', json = []\<rparr>
                       else Inl ''fetch failed''),
      get_rate_limit = ex_rate 5,
      local_zone = utc_zone,
      now_today = ex_today, now_cache_check = ex_today, now_cache_store = ex_today\<rparr>"

definition ex_page_full :: "StargazerWithDate list" where
  "ex_page_full = replicate 100 ex_star_10h"

text \<open>
  2001 stars reported, pages 1 to 20 hold 100 stars each, page 21 answers 403,
  5 requests left.
\<close>

definition ex_world_2001 :: world where
  "ex_world_2001 =
     \<lparr>get_repo = ex_repo 2001,
      get_page = (\<lambda>p. if p \<le> 20
                       then Inr \<lparr>status = 200, statusText = ''OK'', json = ex_page_full\<rparr>
                       else Inr \<lparr>status = 403, statusText = ''Forbidden'', json = []\<rparr>),
      get_rate_limit = ex_rate 5,
      local_zone = utc_zone,
      now_today = ex_today, now_cache_check = ex_today, now_cache_store = ex_today\<rparr>"

subsection \<open>Properties of the page plan\<close>

lemma totalPages_div: "totalPages n = - ((- n) div 100)"
  unfolding totalPages_def starsPerPage_def
  using ceiling_divide_eq_div [of n 100, where ?'a = rat] by simp

lemma push_pages_upto: "push_pages i hi acc = acc @ [i..hi]"
proof (induction i hi acc rule: push_pages.induct)
  case (1 i hi acc)
  show ?case
  proof (cases "i \<le> hi")
    case True
    then have "push_pages i hi acc = (acc @ [i]) @ [i + 1..hi]"
      using 1 by (subst push_pages.simps) simp
    also have "\<dots> = acc @ [i..hi]"
      using True by (simp add: upto_rec1)
    finally show ?thesis .
  next
    case False
    then show ?thesis by (subst push_pages.simps) simp
  qed
qed

lemma push_tail_pages_upto:
  "30 < i \<Longrightarrow> push_tail_pages i hi acc = acc @ [i..hi]"
proof (induction i hi acc rule: push_tail_pages.induct)
  case (1 i hi acc)
  show ?case
  proof (cases "i \<le> hi")
    case True
    then have "push_tail_pages i hi acc = (acc @ [i]) @ [i + 1..hi]"
      using 1 by (subst push_tail_pages.simps) simp
    also have "\<dots> = acc @ [i..hi]"
      using True by (simp add: upto_rec1)
    finally show ?thesis .
  next
    case False
    then show ?thesis by (subst push_tail_pages.simps) simp
  qed
qed

lemma plan_pages_all:
  "full \<or> totalPages n \<le> 100 \<Longrightarrow> plan_pages n full = [1..totalPages n]"
  by (auto simp: plan_pages_def maxPages_def Let_def push_pages_upto
      simp del: upto_rec_numeral)

lemma plan_pages_sampled:
  "\<not> full \<Longrightarrow> 100 < totalPages n \<Longrightarrow>
   plan_pages n full = [1..30] @ [totalPages n - 69..totalPages n]"
  by (simp add: plan_pages_def Let_def push_pages_upto push_tail_pages_upto
      del: upto_rec_numeral)

lemma sorted_wrt_upto_append:
  "a < b \<Longrightarrow> sorted_wrt (<) ([1..a] @ [b..c])"
  by (auto simp: sorted_wrt_append)

text \<open>
  C3. With \<open>totalPages = ceil(totalItems / 100)\<close>: in full mode or when
  \<open>totalPages \<le> 100\<close> the plan is exactly \<open>1..totalPages\<close>; otherwise it is exactly
  \<open>1..30\<close> followed by \<open>totalPages-69..totalPages\<close>. In every case the plan is strictly
  increasing, free of duplicates, and every page lies in \<open>[1, totalPages]\<close>. For 250
  pages in partial mode the plan has exactly 100 distinct pages, which are \<open>1..30\<close> and
  \<open>181..250\<close>.
\<close>

theorem plan_pages_correct:
  "(if full \<or> totalPages n \<le> 100
    then plan_pages n full = [1..totalPages n]
    else plan_pages n full = [1..30] @ [totalPages n - 69..totalPages n])
   \<and> sorted_wrt (<) (plan_pages n full)
   \<and> distinct (plan_pages n full)
   \<and> set (plan_pages n full) \<subseteq> {1..totalPages n}
   \<and> (totalPages m = 250 \<longrightarrow>
        plan_pages m False = [1..30] @ [181..250]
        \<and> length (plan_pages m False) = 100
        \<and> distinct (plan_pages m False)
        \<and> set (plan_pages m False) = {1..30} \<union> {181..250})"
proof -
  have shape: "if full \<or> totalPages n \<le> 100
    then plan_pages n full = [1..totalPages n]
    else plan_pages n full = [1..30] @ [totalPages n - 69..totalPages n]"
    using plan_pages_all [of full n] plan_pages_sampled [of full n]
    by (simp split: if_splits)
  have inc: "sorted_wrt (<) (plan_pages n full)"
  proof (cases "full \<or> totalPages n \<le> 100")
    case True
    then show ?thesis using plan_pages_all [of full n] by simp
  next
    case False
    then have "plan_pages n full = [1..30] @ [totalPages n - 69..totalPages n]"
      using plan_pages_sampled [of full n] by simp
    moreover have "30 < totalPages n - 69" using False by simp
    ultimately show ?thesis using sorted_wrt_upto_append by simp
  qed
  have dist: "distinct (plan_pages n full)"
    using inc by (simp add: strict_sorted_iff)
  have range: "set (plan_pages n full) \<subseteq> {1..totalPages n}"
  proof (cases "full \<or> totalPages n \<le> 100")
    case True
    then show ?thesis using plan_pages_all [of full n] by simp
  next
    case False
    then show ?thesis using plan_pages_sampled [of full n] by auto
  qed
  have ex: "totalPages m = 250 \<longrightarrow>
        plan_pages m False = [1..30] @ [181..250]
        \<and> length (plan_pages m False) = 100
        \<and> distinct (plan_pages m False)
        \<and> set (plan_pages m False) = {1..30} \<union> {181..250}"
  proof
    assume tp: "totalPages m = 250"
    have eq: "plan_pages m False = [1..30] @ [181..250]"
      using plan_pages_sampled [of False m] by (simp only: tp) simp
    have "sorted_wrt (<) ([1..30] @ [181..250::int])"
      by (rule sorted_wrt_upto_append) simp
    then have d: "distinct ([1..30] @ [181..250::int])"
      by (simp only: strict_sorted_iff)
    have l: "length ([1..30] @ [181..250::int]) = 100"
      by (simp del: upto_rec_numeral)
    have s: "set ([1..30] @ [181..250::int]) = {1..30} \<union> {181..250}"
      by (simp only: set_append set_upto)
    show "plan_pages m False = [1..30] @ [181..250]
        \<and> length (plan_pages m False) = 100
        \<and> distinct (plan_pages m False)
        \<and> set (plan_pages m False) = {1..30} \<union> {181..250}"
      using d l s by (simp only: eq simp_thms)
  qed
  from shape inc dist range ex show ?thesis by blast
qed

theorem plan_pages_correct_witness:
  "totalPages 24950 = 250
   \<and> plan_pages 24950 False = [1..30] @ [181..250]
   \<and> length (plan_pages 24950 False) = 100
   \<and> plan_pages 4950 False = [1..50]"
proof -
  have tp: "totalPages 24950 = 250" "totalPages 4950 = 50"
    by (simp_all add: totalPages_div)
  show ?thesis
    using plan_pages_correct [of False 4950 24950] tp
    by (simp del: upto_rec_numeral)
qed

subsection \<open>Local time in a zone\<close>

lemma mult_le_iff_le_div:
  fixes c m t :: int
  assumes "0 < m"
  shows "c * m \<le> t \<longleftrightarrow> c \<le> t div m"
proof
  assume "c * m \<le> t"
  then have "(c * m) div m \<le> t div m" using assms by (rule zdiv_mono1)
  then show "c \<le> t div m" using assms by simp
next
  assume "c \<le> t div m"
  then have "c * m \<le> (t div m) * m" using assms by (simp add: mult_right_mono)
  also have "\<dots> \<le> t"
  proof -
    have "t = (t div m) * m + t mod m" by simp
    moreover have "0 \<le> t mod m" using assms by simp
    ultimately show ?thesis by linarith
  qed
  finally show "c * m \<le> t" .
qed

lemma MS_PER_DAY_pos: "0 < MS_PER_DAY" by (simp add: MS_PER_DAY_def)

lemma iso_date_of_day [simp]: "iso_date (date_of_day c) = c"
  using MS_PER_DAY_pos by (simp add: iso_date_def date_of_day_def)

lemma date_of_day_le: "date_of_day c \<le> t \<longleftrightarrow> c \<le> iso_date t"
  unfolding iso_date_def date_of_day_def
  by (rule mult_le_iff_le_div [OF MS_PER_DAY_pos])

lemma date_of_day_Suc: "date_of_day c + MS_PER_DAY = date_of_day (c + 1)"
  by (simp add: date_of_day_def algebra_simps)

lemma setDate_advances: "d < setDate_plus z d 1"
proof -
  have "advances (Rep_zone z)" using Rep_zone [of z] by simp
  then show ?thesis
    by (simp add: advances_def add_local_def setDate_plus_def UTC_def LocalTime_def)
qed

lemma Rep_utc_zone: "Rep_zone utc_zone = (\<lambda>t. 0, \<lambda>t. 0)"
  unfolding utc_zone_def
  by (rule Abs_zone_inverse)
    (simp add: advances_def add_local_def MS_PER_HOUR_def MS_PER_DAY_def)

lemma utc_zone_steps [simp]:
  "setDate_plus utc_zone d n = d + n * MS_PER_DAY"
  "setHours_plus_1 utc_zone h = h + MS_PER_HOUR"
  by (simp_all add: setDate_plus_def setHours_plus_1_def UTC_def LocalTime_def Rep_utc_zone)

lemma no_clock_change_utc: "no_clock_change utc_zone lo hi"
  by (simp add: no_clock_change_def)

lemma new_york_advances: "advances new_york_rep"
  unfolding advances_def add_local_def new_york_rep_def
  by (simp add: days_from_civil_def date_of_day_def MS_PER_HOUR_def MS_PER_DAY_def)

lemma Rep_new_york: "Rep_zone new_york_2024 = new_york_rep"
  unfolding new_york_2024_def
  by (rule Abs_zone_inverse) (simp add: new_york_advances)

subsection \<open>The daily loop computes the series over the days it visits\<close>

lemma daily_loop_series:
  "daily_loop z byDate today d cum acc =
     (acc @ series (get_or_0 byDate) cum (map iso_date (day_steps z today d)),
      series_total (get_or_0 byDate) cum (map iso_date (day_steps z today d)))"
proof (induction z byDate today d cum acc rule: daily_loop.induct)
  case (1 z byDate today d cum acc)
  show ?case
  proof (cases "d \<le> today")
    case True
    have steps: "day_steps z today d = d # day_steps z today (setDate_plus z d 1)"
      using True by (subst day_steps.simps) simp
    show ?thesis
      by (subst daily_loop.simps) (simp add: True 1 [OF True] steps)
  next
    case False
    have steps: "day_steps z today d = []"
      using False by (subst day_steps.simps) simp
    show ?thesis
      by (subst daily_loop.simps) (simp add: False steps)
  qed
qed

lemma day_steps_no_clock_change:
  assumes "no_clock_change z (date_of_day c) today"
  shows "map iso_date (day_steps z today (date_of_day c)) =
     map (\<lambda>i. c + int i) [0..<nat (iso_date today - c + 1)]"
  using assms
proof (induction z today "date_of_day c" arbitrary: c rule: day_steps.induct)
  case (1 z today c)
  show ?case
  proof (cases "date_of_day c \<le> today")
    case True
    then have le: "c \<le> iso_date today" by (simp add: date_of_day_le)
    have next_day: "setDate_plus z (date_of_day c) 1 = date_of_day (c + 1)"
      using "1.prems" True by (simp add: no_clock_change_def date_of_day_Suc)
    have "date_of_day c \<le> date_of_day (c + 1)"
      using MS_PER_DAY_pos by (simp add: date_of_day_def algebra_simps)
    then have rest: "no_clock_change z (date_of_day (c + 1)) today"
      using "1.prems" by (simp add: no_clock_change_def)
    have n: "nat (iso_date today - c + 1) = Suc (nat (iso_date today - (c + 1) + 1))"
      using le by simp
    have shift: "map (\<lambda>i. c + int i) [0..<Suc m] = c # map (\<lambda>i. c + 1 + int i) [0..<m]" for m
      by (induction m) simp_all
    show ?thesis
      using "1.hyps" [OF True next_day rest]
      by (subst day_steps.simps) (simp only: True if_True next_day n shift list.map iso_date_of_day)
  next
    case False
    then have "\<not> c \<le> iso_date today" by (simp add: date_of_day_le)
    then have n: "nat (iso_date today - c + 1) = 0" by simp
    show ?thesis
      by (subst day_steps.simps) (simp add: False n)
  qed
qed

lemma visited_days_no_clock_change:
  "no_clock_change z (date_of_day c) today \<Longrightarrow>
   visited_days z c today = map (\<lambda>i. c + int i) [0..<days_between c today]"
  by (simp add: visited_days_def days_between_def day_steps_no_clock_change)

subsection \<open>Properties of the series\<close>

lemma length_series [simp]: "length (series g cum ks) = length ks"
  by (induction ks arbitrary: cum) auto

lemma map_date_series [simp]: "map date (series g cum ks) = ks"
  by (induction ks arbitrary: cum) auto

lemma map_daily_series [simp]: "map daily (series g cum ks) = map g ks"
  by (induction ks arbitrary: cum) auto

lemma series_cum_ge:
  "\<forall>k. 0 \<le> g k \<Longrightarrow> x \<in> set (series g cum ks) \<Longrightarrow> cum \<le> cumulative x"
proof (induction ks arbitrary: cum)
  case Nil then show ?case by simp
next
  case (Cons k ks)
  from Cons.prems(2) consider "x = \<lparr>date = k, daily = g k, cumulative = cum + g k\<rparr>"
    | "x \<in> set (series g (cum + g k) ks)" by auto
  then show ?case
  proof cases
    case 1 then show ?thesis using Cons.prems(1) by simp
  next
    case 2
    from Cons.IH [OF Cons.prems(1) 2] have "cum + g k \<le> cumulative x" .
    moreover have "0 \<le> g k" using Cons.prems(1) by simp
    ultimately show ?thesis by simp
  qed
qed

lemma sorted_series:
  "\<forall>k. 0 \<le> g k \<Longrightarrow> sorted (map cumulative (series g cum ks))"
proof (induction ks arbitrary: cum)
  case Nil then show ?case by simp
next
  case (Cons k ks)
  have "\<forall>x\<in>set (series g (cum + g k) ks). cum + g k \<le> cumulative x"
    using series_cum_ge [OF Cons.prems] by blast
  then show ?case using Cons.IH [OF Cons.prems] by simp
qed

lemma last_series:
  "ks \<noteq> [] \<Longrightarrow> cumulative (last (series g cum ks)) = series_total g cum ks"
proof (induction ks arbitrary: cum)
  case Nil then show ?case by simp
next
  case (Cons k ks)
  show ?case
  proof (cases ks)
    case Nil then show ?thesis by simp
  next
    case (Cons k' ks')
    then have "series g (cum + g k) ks \<noteq> []" by simp
    then show ?thesis using Cons.IH [of "cum + g k"] Cons by simp
  qed
qed


subsection \<open>The count maps hold the number of stargazers per key\<close>

lemma get_or_0_bump: "get_or_0 (bump m j) k = get_or_0 m k + (if j = k then 1 else 0)"
  by (simp add: get_or_0_def bump_def)

lemma bucket_step_date:
  "get_or_0 (fst (bucket_step sda b sg)) k = get_or_0 (fst b) k + (if on_day k sg then 1 else 0)"
  by (simp add: bucket_step_def on_day_def get_or_0_bump split: option.splits)

lemma bucket_step_hour:
  "get_or_0 (snd (bucket_step sda b sg)) k =
     get_or_0 (snd b) k + (if in_hour sda k sg then 1 else 0)"
  by (simp add: bucket_step_def in_hour_def get_or_0_bump split: option.splits)

lemma foldl_bucket_date:
  "get_or_0 (fst (foldl (bucket_step sda) b evs)) k = get_or_0 (fst b) k + stars_on k evs"
proof (induction evs arbitrary: b)
  case Nil then show ?case by (simp add: stars_on_def)
next
  case (Cons sg evs)
  show ?case
    using Cons.IH [of "bucket_step sda b sg"]
    by (simp add: bucket_step_date stars_on_def)
qed

lemma foldl_bucket_hour:
  "get_or_0 (snd (foldl (bucket_step sda) b evs)) k = get_or_0 (snd b) k + stars_in sda k evs"
proof (induction evs arbitrary: b)
  case Nil then show ?case by (simp add: stars_in_def)
next
  case (Cons sg evs)
  show ?case
    using Cons.IH [of "bucket_step sda b sg"]
    by (simp add: bucket_step_hour stars_in_def)
qed

lemma get_or_0_empty [simp]: "get_or_0 Map.empty k = 0"
  by (simp add: get_or_0_def)

lemma get_starsByDate: "get_or_0 (starsByDate z today evs) = (\<lambda>k. stars_on k evs)"
  by (rule ext) (simp add: starsByDate_def bucket_stargazers_def foldl_bucket_date)

lemma get_starsByHour:
  "get_or_0 (starsByHour z today evs) = (\<lambda>k. stars_in (sevenDaysAgo z today) k evs)"
  by (rule ext) (simp add: starsByHour_def bucket_stargazers_def foldl_bucket_hour)

lemma stars_on_nonneg: "0 \<le> stars_on k evs"
  by (simp add: stars_on_def)

lemma stars_on_mset: "mset xs = mset ys \<Longrightarrow> stars_on k xs = stars_on k ys"
proof -
  assume "mset xs = mset ys"
  then have "mset (filter (on_day k) xs) = mset (filter (on_day k) ys)" by simp
  then have "length (filter (on_day k) xs) = length (filter (on_day k) ys)"
    by (rule mset_eq_length)
  then show ?thesis by (simp add: stars_on_def)
qed

lemma stars_in_mset: "mset xs = mset ys \<Longrightarrow> stars_in s k xs = stars_in s k ys"
proof -
  assume "mset xs = mset ys"
  then have "mset (filter (in_hour s k) xs) = mset (filter (in_hour s k) ys)" by simp
  then have "length (filter (in_hour s k) xs) = length (filter (in_hour s k) ys)"
    by (rule mset_eq_length)
  then show ?thesis by (simp add: stars_in_def)
qed

lemma unscaled_history_series:
  "unscaled_history z evs created today =
     series (\<lambda>k. stars_on k evs) 0 (visited_days z created today)"
  by (simp add: unscaled_history_def daily_loop_series get_starsByDate visited_days_def)

lemma observedTotal_series:
  "observedTotal z evs created today =
     series_total (\<lambda>k. stars_on k evs) 0 (visited_days z created today)"
  by (simp add: observedTotal_def daily_loop_series get_starsByDate visited_days_def)

subsection \<open>Scaling the cumulative counts\<close>

lemma js_round_mono: "x \<le> y \<Longrightarrow> js_round x \<le> js_round y"
  by (simp add: js_round_def floor_mono)

lemma js_round_of_int [simp]: "js_round (of_int n) = n"
  unfolding js_round_def by linarith

lemma scale_cumulative_length [simp]:
  "length (scale_cumulative T cum dh) = length dh"
  by (simp add: scale_cumulative_def Let_def)

lemma scale_cumulative_date [simp]:
  "map date (scale_cumulative T cum dh) = map date dh"
  by (simp add: scale_cumulative_def Let_def)

lemma scale_cumulative_daily [simp]:
  "map daily (scale_cumulative T cum dh) = map daily dh"
  by (simp add: scale_cumulative_def Let_def)

lemma scale_cumulative_sorted:
  assumes "sorted (map cumulative dh)"
  shows "sorted (map cumulative (scale_cumulative T cum dh))"
proof (cases "cum < T \<and> 0 < cum")
  case False
  then show ?thesis using assms by (auto simp: scale_cumulative_def)
next
  case True
  define sf where "sf = (of_int T :: rat) / of_int cum"
  have sf: "0 \<le> sf" using True by (simp add: sf_def)
  have mono: "\<And>a b::int. a \<le> b \<Longrightarrow> js_round (of_int a * sf) \<le> js_round (of_int b * sf)"
    by (rule js_round_mono) (simp add: mult_right_mono sf)
  have "sorted_wrt (\<lambda>x y. cumulative x \<le> cumulative y) dh"
    using assms by (simp add: sorted_map)
  then have "sorted_wrt (\<lambda>x y. js_round (of_int (cumulative x) * sf)
                \<le> js_round (of_int (cumulative y) * sf)) dh"
    by (rule sorted_wrt_mono_rel [rotated]) (simp add: mono)
  then show ?thesis
    using True by (simp add: scale_cumulative_def Let_def sorted_map sf_def comp_def sorted_wrt_map)
qed

lemma scale_cumulative_last:
  assumes "dh \<noteq> []" and "cumulative (last dh) = cum"
  shows "cumulative (last (scale_cumulative T cum dh)) = (if 0 < cum \<and> cum < T then T else cum)"
proof (cases "cum < T \<and> 0 < cum")
  case False
  then show ?thesis using assms by (auto simp: scale_cumulative_def)
next
  case True
  then have "(of_int cum :: rat) * (of_int T / of_int cum) = of_int T" by simp
  then show ?thesis
    using True assms by (simp add: scale_cumulative_def Let_def last_map)
qed

lemma observed_pos_days:
  "0 < observedTotal z evs created today \<Longrightarrow> visited_days z created today \<noteq> []"
  by (cases "visited_days z created today") (simp_all add: observedTotal_series)

lemma daily_history_sorted:
  "sorted (map cumulative (daily_history z evs T created today))"
  unfolding daily_history_def
  by (rule scale_cumulative_sorted)
     (simp add: unscaled_history_series sorted_series stars_on_nonneg)

lemma daily_history_last:
  assumes "0 < observedTotal z evs created today"
  shows "cumulative (last (daily_history z evs T created today)) =
     (if observedTotal z evs created today < T then T
      else observedTotal z evs created today)"
proof -
  have ne: "visited_days z created today \<noteq> []" using assms by (rule observed_pos_days)
  then have "length (unscaled_history z evs created today) \<noteq> 0"
    by (simp add: unscaled_history_series)
  then have ne': "unscaled_history z evs created today \<noteq> []"
    by auto
  have "cumulative (last (unscaled_history z evs created today))
      = observedTotal z evs created today"
    using ne by (simp add: unscaled_history_series observedTotal_series last_series)
  from scale_cumulative_last [OF ne' this, of T] show ?thesis
    using assms unfolding daily_history_def by simp
qed

subsection \<open>Length, dates and counts of the daily history\<close>

lemma age_in_days_eq: "age_in_days created today = iso_date today - created"
proof -
  have "(today + (- created) * MS_PER_DAY) div MS_PER_DAY = - created + today div MS_PER_DAY"
    using MS_PER_DAY_pos by (intro div_mult_self1) simp
  then have "(today - created * MS_PER_DAY) div MS_PER_DAY = today div MS_PER_DAY - created"
    by simp
  then show ?thesis
    by (simp add: age_in_days_def date_of_day_def iso_date_def floor_divide_of_int_eq
        flip: of_int_diff of_int_mult)
qed

lemma dailyHistory_build [simp]:
  "dailyHistory (build_analytics z ow rp evs T c t) = daily_history z evs T c t"
  by (simp add: build_analytics_def)

lemma daily_history_dates:
  "map date (daily_history z evs T c t) = visited_days z c t"
  by (simp add: daily_history_def unscaled_history_series)

lemma daily_history_daily:
  "map daily (daily_history z evs T c t) = map (\<lambda>k. stars_on k evs) (visited_days z c t)"
  by (simp add: daily_history_def unscaled_history_series)

lemma daily_history_length:
  "length (daily_history z evs T c t) = length (visited_days z c t)"
  by (simp add: daily_history_def unscaled_history_series)

lemma map_upt_upto: "map (\<lambda>i. c + int i) [0..<n] = [c..c + int n - 1]"
proof (induction n)
  case 0 then show ?case by simp
next
  case (Suc n)
  have "[c..c + int (Suc n) - 1] = [c..c + int n - 1] @ [c + int n]"
    using upto_rec2 [of c "c + int n"] by simp
  then show ?case using Suc by simp
qed

lemma stars_on_none: "\<forall>sg\<in>set evs. \<not> on_day k sg \<Longrightarrow> stars_on k evs = 0"
  by (simp add: stars_on_def)

text \<open>
  Without a clock change between the creation day and the request, the daily history
  is calendar-dense: one entry per day from the creation day to the day of the request,
  in order, each with the number of stargazers of its day.
\<close>

lemma daily_history_dense_without_clock_change:
  assumes "c \<le> iso_date t" and "no_clock_change z (date_of_day c) t"
  shows "length (daily_history z evs T c t) = nat (iso_date t - c) + 1"
    and "map date (daily_history z evs T c t) = [c..iso_date t]"
    and "map daily (daily_history z evs T c t) = map (\<lambda>k. stars_on k evs) [c..iso_date t]"
proof -
  have v: "visited_days z c t = [c..iso_date t]"
    using assms by (simp add: visited_days_no_clock_change map_upt_upto days_between_def)
  show "map date (daily_history z evs T c t) = [c..iso_date t]"
    by (simp add: daily_history_dates v)
  show "map daily (daily_history z evs T c t) = map (\<lambda>k. stars_on k evs) [c..iso_date t]"
    by (simp add: daily_history_daily v)
  show "length (daily_history z evs T c t) = nat (iso_date t - c) + 1"
    using assms(1) by (simp add: daily_history_length v)
qed

subsection \<open>Rounding to a fixed number of decimals\<close>

lemma floor_int_plus_half: "\<lfloor>(of_int m :: rat) + 1 / 2\<rfloor> = m"
  by linarith

lemma to_fixed_of_int [simp]: "to_fixed f (of_int n) = of_int n"
proof -
  have pos: "\<lfloor>(of_int n :: rat) * 10 ^ f + 1 / 2\<rfloor> = n * 10 ^ f"
    using floor_int_plus_half [of "n * 10 ^ f"] by simp
  have neg: "\<lfloor>- (of_int n :: rat) * 10 ^ f + 1 / 2\<rfloor> = - n * 10 ^ f"
    using floor_int_plus_half [of "- n * 10 ^ f"] by simp
  show ?thesis
    using pos neg by (simp add: to_fixed_def)
qed

lemma to_fixed_numeral [simp]: "to_fixed f (numeral k) = numeral k" "to_fixed f 0 = 0"
  using to_fixed_of_int [of f "numeral k"] to_fixed_of_int [of f 0] by simp_all

subsection \<open>The example windows\<close>

lemmas ex_defs = ex_created_def ex_today_def ex_star_10h_def ex_star_11h_def
  days_from_civil_def date_of_day_def MS_PER_DAY_def MS_PER_HOUR_def iso_date_def

lemma js_round_simps [simp]:
  "js_round 0 = 0" "js_round 1 = 1" "js_round (numeral k) = numeral k"
  using js_round_of_int [of 0] js_round_of_int [of 1] js_round_of_int [of "numeral k"]
  by simp_all

lemma ex_created_value: "ex_created = 19723"
  by (simp add: ex_defs)

lemma day_2024_01_03: "days_from_civil 2024 1 3 = 19725"
  by (simp add: days_from_civil_def)

lemma ex_today_day: "iso_date ex_today = days_from_civil 2024 1 3"
  by (simp add: ex_defs)

lemma window_days:
  assumes "iso_date today = days_from_civil 2024 1 3"
    and "no_clock_change z (date_of_day ex_created) today"
  shows "visited_days z ex_created today = [19723, 19724, 19725]"
proof -
  have "days_between ex_created today = Suc (Suc (Suc 0))"
    using assms(1) by (simp add: days_between_def ex_created_value day_2024_01_03)
  then show ?thesis
    using assms(2) by (simp add: visited_days_no_clock_change ex_created_value)
qed

lemma ex_visited_days: "visited_days utc_zone ex_created ex_today = [19723, 19724, 19725]"
  using ex_today_day no_clock_change_utc by (rule window_days)

lemma ex_stars_on_10h:
  "stars_on k [ex_star_10h] = (if k = 19724 then 1 else 0)"
  by (simp add: stars_on_def on_day_def ex_defs)

lemma ex_stars_on_both:
  "stars_on k [ex_star_10h, ex_star_11h] = (if k = 19724 then 2 else 0)"
  by (simp add: stars_on_def on_day_def ex_defs)

lemma ex_unscaled_10h:
  "unscaled_history utc_zone [ex_star_10h] ex_created ex_today =
     [\<lparr>date = 19723, daily = 0, cumulative = 0\<rparr>,
      \<lparr>date = 19724, daily = 1, cumulative = 1\<rparr>,
      \<lparr>date = 19725, daily = 0, cumulative = 1\<rparr>]"
  by (simp add: unscaled_history_series ex_visited_days ex_stars_on_10h)

lemma ex_observed_10h: "observedTotal utc_zone [ex_star_10h] ex_created ex_today = 1"
  by (simp add: observedTotal_series ex_visited_days ex_stars_on_10h)

lemma ex_unscaled_both:
  "unscaled_history utc_zone [ex_star_10h, ex_star_11h] ex_created ex_today =
     [\<lparr>date = 19723, daily = 0, cumulative = 0\<rparr>,
      \<lparr>date = 19724, daily = 2, cumulative = 2\<rparr>,
      \<lparr>date = 19725, daily = 0, cumulative = 2\<rparr>]"
  by (simp add: unscaled_history_series ex_visited_days ex_stars_on_both)

lemma ex_observed_both:
  "observedTotal utc_zone [ex_star_10h, ex_star_11h] ex_created ex_today = 2"
  by (simp add: observedTotal_series ex_visited_days ex_stars_on_both)

text \<open>New York in January 2024: no clock change in the window of the examples.\<close>

lemma new_york_january:
  "no_clock_change new_york_2024 (date_of_day ex_created) ex_today"
  unfolding no_clock_change_def setDate_plus_def UTC_def LocalTime_def Rep_new_york
    new_york_rep_def
  by (simp add: ex_defs)

subsection \<open>The partial-data example\<close>

text \<open>
  C7. Created on 2024-01-01, asked at any instant of 2024-01-03, in a zone without a
  clock change in that window, with the single star of 2024-01-02T10:00Z and a
  reported total of 4: the observed total is 1, the scale factor is 4, the entry of
  2024-01-02 and the last entry have the cumulative count 4, and the completeness
  is 25.
\<close>

theorem partial_data_example:
  assumes "iso_date today = days_from_civil 2024 1 3"
    and "no_clock_change z (date_of_day ex_created) today"
  shows "observedTotal z [ex_star_10h] ex_created today = 1
   \<and> (of_int 4 :: rat) / of_int (observedTotal z [ex_star_10h] ex_created today) = 4
   \<and> dailyHistory (build_analytics z ow rp [ex_star_10h] 4 ex_created today) =
       [\<lparr>date = days_from_civil 2024 1 1, daily = 0, cumulative = 0\<rparr>,
        \<lparr>date = days_from_civil 2024 1 2, daily = 1, cumulative = 4\<rparr>,
        \<lparr>date = days_from_civil 2024 1 3, daily = 0, cumulative = 4\<rparr>]
   \<and> cumulative (last (dailyHistory (build_analytics z ow rp [ex_star_10h] 4 ex_created today)))
       = 4
   \<and> dataCompleteness (build_analytics z ow rp [ex_star_10h] 4 ex_created today) = 25"
proof -
  note v = window_days [OF assms]
  have u: "unscaled_history z [ex_star_10h] ex_created today =
     [\<lparr>date = 19723, daily = 0, cumulative = 0\<rparr>,
      \<lparr>date = 19724, daily = 1, cumulative = 1\<rparr>,
      \<lparr>date = 19725, daily = 0, cumulative = 1\<rparr>]"
    by (simp add: unscaled_history_series v ex_stars_on_10h)
  have obs: "observedTotal z [ex_star_10h] ex_created today = 1"
    by (simp add: observedTotal_series v ex_stars_on_10h)
  have dh: "daily_history z [ex_star_10h] 4 ex_created today =
       [\<lparr>date = days_from_civil 2024 1 1, daily = 0, cumulative = 0\<rparr>,
        \<lparr>date = days_from_civil 2024 1 2, daily = 1, cumulative = 4\<rparr>,
        \<lparr>date = days_from_civil 2024 1 3, daily = 0, cumulative = 4\<rparr>]"
    by (simp add: daily_history_def obs u scale_cumulative_def days_from_civil_def)
  have dc: "dataCompleteness (build_analytics z ow rp [ex_star_10h] 4 ex_created today) = 25"
    by (simp add: build_analytics_def obs completeness_def)
  show ?thesis using dh dc by (simp add: obs)
qed

theorem partial_data_example_witness:
  "iso_date ex_today = days_from_civil 2024 1 3
   \<and> observedTotal utc_zone [ex_star_10h] ex_created ex_today = 1
   \<and> dailyHistory (build_analytics utc_zone ''octo'' ''cat'' [ex_star_10h] 4 ex_created ex_today)
       = [\<lparr>date = days_from_civil 2024 1 1, daily = 0, cumulative = 0\<rparr>,
          \<lparr>date = days_from_civil 2024 1 2, daily = 1, cumulative = 4\<rparr>,
          \<lparr>date = days_from_civil 2024 1 3, daily = 0, cumulative = 4\<rparr>]
   \<and> dataCompleteness (build_analytics utc_zone ''octo'' ''cat'' [ex_star_10h] 4 ex_created
        ex_today) = 25
   \<and> dailyHistory
        (build_analytics new_york_2024 ''octo'' ''cat'' [ex_star_10h] 4 ex_created ex_today)
       = [\<lparr>date = days_from_civil 2024 1 1, daily = 0, cumulative = 0\<rparr>,
          \<lparr>date = days_from_civil 2024 1 2, daily = 1, cumulative = 4\<rparr>,
          \<lparr>date = days_from_civil 2024 1 3, daily = 0, cumulative = 4\<rparr>]
   \<and> dataCompleteness (build_analytics new_york_2024 ''octo'' ''cat'' [ex_star_10h] 4
        ex_created ex_today) = 25"
  using partial_data_example [OF ex_today_day no_clock_change_utc, of "''octo''" "''cat''"]
    partial_data_example [OF ex_today_day new_york_january, of "''octo''" "''cat''"]
    ex_today_day
  by simp

subsection \<open>The cumulative counts\<close>

text \<open>
  C1, as stated, fails when more stars are observed than reported: with the two stars
  of 2024-01-02 and a reported total of 1, nothing is scaled and the last cumulative
  count is 2.
\<close>

theorem final_cumulative_counterexample:
  "\<not> (0 < observedTotal utc_zone [ex_star_10h, ex_star_11h] ex_created ex_today \<longrightarrow>
        sorted (map cumulative
          (dailyHistory (build_analytics utc_zone ''octo'' ''cat'' [ex_star_10h, ex_star_11h] 1
             ex_created ex_today)))
        \<and> cumulative (last
          (dailyHistory (build_analytics utc_zone ''octo'' ''cat'' [ex_star_10h, ex_star_11h] 1
             ex_created ex_today)))
          = 1)"
  by (simp add: daily_history_def ex_observed_both ex_unscaled_both scale_cumulative_def)

text \<open>
  C1, amended. The cumulative counts of the daily history never decrease. The last one
  equals the reported total whenever the observed total is positive and at most the
  reported total; when the observed total exceeds the reported total nothing is scaled
  and the last one equals the observed total.
\<close>

theorem cumulative_sorted_and_final:
  "sorted (map cumulative (dailyHistory (build_analytics z ow rp evs T c t)))
   \<and> (0 < observedTotal z evs c t \<and> observedTotal z evs c t \<le> T \<longrightarrow>
        cumulative (last (dailyHistory (build_analytics z ow rp evs T c t))) = T)
   \<and> (0 < observedTotal z evs c t \<and> T < observedTotal z evs c t \<longrightarrow>
        cumulative (last (dailyHistory (build_analytics z ow rp evs T c t)))
          = observedTotal z evs c t)"
  using daily_history_sorted [of z evs T c t] daily_history_last [of z evs c t T]
  by auto

theorem cumulative_sorted_and_final_witness:
  "0 < observedTotal utc_zone [ex_star_10h] ex_created ex_today
   \<and> observedTotal utc_zone [ex_star_10h] ex_created ex_today \<le> 4
   \<and> cumulative (last (dailyHistory
        (build_analytics utc_zone ''o'' ''r'' [ex_star_10h] 4 ex_created ex_today))) = 4
   \<and> 0 < observedTotal utc_zone [ex_star_10h, ex_star_11h] ex_created ex_today
   \<and> 1 < observedTotal utc_zone [ex_star_10h, ex_star_11h] ex_created ex_today
   \<and> cumulative (last (dailyHistory
        (build_analytics utc_zone ''o'' ''r'' [ex_star_10h, ex_star_11h] 1 ex_created
           ex_today))) = 2"
  using cumulative_sorted_and_final
      [of utc_zone "''o''" "''r''" "[ex_star_10h]" 4 ex_created ex_today]
    cumulative_sorted_and_final
      [of utc_zone "''o''" "''r''" "[ex_star_10h, ex_star_11h]" 1 ex_created ex_today]
  by (simp add: ex_observed_10h ex_observed_both)

subsection \<open>The daily history across a clock change\<close>

lemmas march_defs = march_created_def march_today_def march_star_def
  days_from_civil_def date_of_day_def MS_PER_DAY_def MS_PER_HOUR_def iso_date_def

lemma new_york_setDate:
  "setDate_plus new_york_2024 d 1 =
     (d + fst new_york_rep d + MS_PER_DAY) - snd new_york_rep (d + fst new_york_rep d + MS_PER_DAY)"
  by (simp add: setDate_plus_def UTC_def LocalTime_def Rep_new_york)

lemma march_steps:
  "setDate_plus new_york_2024 1709856000000 1 = 1709942400000"
  "setDate_plus new_york_2024 1709942400000 1 = 1710028800000"
  "setDate_plus new_york_2024 1710028800000 1 = 1710111600000"
  "setDate_plus new_york_2024 1710111600000 1 = 1710198000000"
  "setDate_plus new_york_2024 1710198000000 1 = 1710284400000"
  by (simp_all add: new_york_setDate new_york_rep_def days_from_civil_def date_of_day_def
      MS_PER_DAY_def MS_PER_HOUR_def)

lemma march_day_steps:
  "day_steps new_york_2024 march_today (date_of_day march_created) =
     [1709856000000, 1709942400000, 1710028800000, 1710111600000, 1710198000000]"
proof -
  have t: "march_today = 1710244800000" "date_of_day march_created = 1709856000000"
    by (simp_all add: march_defs)
  show ?thesis
    unfolding t
    by (subst day_steps.simps, simp add: march_steps)+
qed

lemma march_visited_days:
  "visited_days new_york_2024 march_created march_today =
     [19790, 19791, 19792, 19792, 19793]"
  by (simp add: visited_days_def march_day_steps iso_date_def MS_PER_DAY_def)

lemma march_stars_on: "stars_on k [march_star] = (if k = 19792 then 1 else 0)"
  by (simp add: stars_on_def on_day_def march_defs)

text \<open>
  C4. The handler breaks the claim in a zone with a clock change. In New York, for a
  repository created on 2024-03-08 and asked on 2024-03-12 at 12:00Z, with one star
  given on 2024-03-10 at 15:00Z: the loop steps on the local clock, from 19:00 local
  time of one day to 19:00 of the next, which is 00:00Z before the change of 2024-03-10
  and 23:00Z after it. The dates of the history are 03-08, 03-09, 03-10, 03-10, 03-11:
  2024-03-10 comes twice, its star is counted twice, and the day of the request has no
  entry. In UTC the same request gives the five days from 03-08 to 03-12.
\<close>

theorem daily_history_across_clock_change:
  "march_created \<le> iso_date march_today
   \<and> iso_date march_today = days_from_civil 2024 3 12
   \<and> dailyHistory
        (build_analytics new_york_2024 ''octo'' ''cat'' [march_star] 1 march_created march_today)
       = [\<lparr>date = days_from_civil 2024 3 8, daily = 0, cumulative = 0\<rparr>,
          \<lparr>date = days_from_civil 2024 3 9, daily = 0, cumulative = 0\<rparr>,
          \<lparr>date = days_from_civil 2024 3 10, daily = 1, cumulative = 1\<rparr>,
          \<lparr>date = days_from_civil 2024 3 10, daily = 1, cumulative = 2\<rparr>,
          \<lparr>date = days_from_civil 2024 3 11, daily = 0, cumulative = 2\<rparr>]
   \<and> map date (dailyHistory
        (build_analytics utc_zone ''octo'' ''cat'' [march_star] 1 march_created march_today))
       = [days_from_civil 2024 3 8, days_from_civil 2024 3 9, days_from_civil 2024 3 10,
          days_from_civil 2024 3 11, days_from_civil 2024 3 12]"
proof -
  have le: "march_created \<le> iso_date march_today"
    and day: "iso_date march_today = days_from_civil 2024 3 12"
    by (simp_all add: march_defs)
  have obs: "observedTotal new_york_2024 [march_star] march_created march_today = 2"
    by (simp add: observedTotal_series march_visited_days march_stars_on)
  have ny: "daily_history new_york_2024 [march_star] 1 march_created march_today
       = [\<lparr>date = days_from_civil 2024 3 8, daily = 0, cumulative = 0\<rparr>,
          \<lparr>date = days_from_civil 2024 3 9, daily = 0, cumulative = 0\<rparr>,
          \<lparr>date = days_from_civil 2024 3 10, daily = 1, cumulative = 1\<rparr>,
          \<lparr>date = days_from_civil 2024 3 10, daily = 1, cumulative = 2\<rparr>,
          \<lparr>date = days_from_civil 2024 3 11, daily = 0, cumulative = 2\<rparr>]"
    by (simp add: daily_history_def obs scale_cumulative_def unscaled_history_series
        march_visited_days march_stars_on days_from_civil_def)
  have "map date (daily_history utc_zone [march_star] 1 march_created march_today)
      = [march_created..iso_date march_today]"
    using le no_clock_change_utc by (rule daily_history_dense_without_clock_change(2))
  also have "\<dots> = [days_from_civil 2024 3 8, days_from_civil 2024 3 9,
      days_from_civil 2024 3 10, days_from_civil 2024 3 11, days_from_civil 2024 3 12]"
    by (simp add: march_defs)
  finally show ?thesis using le day ny by simp
qed

subsection \<open>Average per day and trend\<close>

lemma avg_stars_per_day_defined: "avg_stars_per_day T a \<noteq> None"
  by (simp add: avg_stars_per_day_def js_div_def)

text \<open>
  C10. The average per day is a finite number for every input: the quotient is taken
  only when \<open>ageInDays\<close> is positive. When the creation day is the day of the request,
  \<open>ageInDays\<close> is 0 and the average is the total.
\<close>

theorem avg_per_day_guarded:
  "avg_stars_per_day T a \<noteq> None
   \<and> avgStarsPerDay (build_analytics z ow rp evs T c t) \<noteq> None
   \<and> (iso_date t = c \<longrightarrow>
        ageInDays (build_analytics z ow rp evs T c t) = 0
        \<and> avg_stars_per_day T (ageInDays (build_analytics z ow rp evs T c t))
            = Some (of_int T)
        \<and> avgStarsPerDay (build_analytics z ow rp evs T c t) = Some (of_int T))"
  by (simp add: build_analytics_def avg_stars_per_day_defined age_in_days_eq)
     (simp add: avg_stars_per_day_def)

theorem avg_per_day_guarded_witness:
  "iso_date ex_today = days_from_civil 2024 1 3
   \<and> ageInDays (build_analytics utc_zone ''o'' ''r'' [] 7 (days_from_civil 2024 1 3) ex_today)
       = 0
   \<and> avgStarsPerDay
        (build_analytics utc_zone ''o'' ''r'' [] 7 (days_from_civil 2024 1 3) ex_today)
       = Some 7"
proof -
  have h: "iso_date ex_today = days_from_civil 2024 1 3" by (simp add: ex_defs)
  show ?thesis
    using h avg_per_day_guarded
      [of 7 0 utc_zone "''o''" "''r''" "[]" "days_from_civil 2024 1 3" ex_today]
    by simp
qed

lemma sum_daily_sum_list: "sum_daily xs = sum_list (map daily xs)"
proof -
  have "foldl (\<lambda>a b. a + daily b) a xs = a + sum_list (map daily xs)" for a
    by (induction xs arbitrary: a) simp_all
  then show ?thesis by (simp add: sum_daily_def)
qed

lemma last30_drop: "last30 dh = drop (length dh - 30) dh"
  by (simp add: last30_def js_slice_from_def js_slice_def Let_def max_def)
     (auto simp: nat_diff_distrib')

lemma prev30_take_drop:
  "prev30 dh = drop (length dh - 60) (take (length dh - 30) dh)"
proof -
  let ?len = "int (length dh)"
  have k: "nat (max (?len + - 60) 0) = length dh - 60" by (simp add: max_def) linarith
  have f: "nat (max (?len + - 30) 0 - max (?len + - 60) 0) = (length dh - 30) - (length dh - 60)"
    by (simp add: max_def) linarith
  show ?thesis
    unfolding prev30_def js_slice_def Let_def
    using k f by (simp add: drop_take)
qed

lemma sum30_spec: "sum_daily (last30 dh) = spec_sum30 dh"
  by (simp add: sum_daily_sum_list last30_drop spec_sum30_def take_rev flip: rev_map)

lemma sumPrev30_spec: "sum_daily (prev30 dh) = spec_sumPrev30 dh"
proof -
  have "take 30 (drop 30 (rev dh)) = rev (drop (length dh - 60) (take (length dh - 30) dh))"
    by (simp add: take_rev drop_rev)
  then show ?thesis
    by (simp add: sum_daily_sum_list prev30_take_drop spec_sumPrev30_def flip: rev_map)
qed

lemma trend_detection_spec:
  "0 \<le> sumPrev30 \<Longrightarrow> trend_detection sum30 sumPrev30 = spec_direction sum30 sumPrev30"
  by (simp add: trend_detection_def spec_direction_def Let_def)

lemma daily_history_daily_nonneg:
  "x \<in> set (daily_history z evs T c t) \<Longrightarrow> 0 \<le> daily x"
proof -
  assume "x \<in> set (daily_history z evs T c t)"
  then have "daily x \<in> set (map daily (daily_history z evs T c t))" by simp
  then show ?thesis
    by (auto simp: daily_history_daily stars_on_nonneg)
qed

lemma spec_sumPrev30_nonneg:
  "0 \<le> spec_sumPrev30 (daily_history z evs T c t)"
  unfolding spec_sumPrev30_def
  by (rule sum_list_nonneg)
    (auto dest!: in_set_takeD in_set_dropD simp: daily_history_daily_nonneg)

text \<open>
  C6. The trend of the response is the direction of the specification, computed from
  the sum of the last 30 daily counts and the sum of the 30 before them: up above
  +10 percent, down below -10 percent, else stable, and with an empty previous window
  up exactly when the last 30 days hold more than 10 stars. A previous sum of 100 gives
  up for 115, down for 85 and stable for 95.
\<close>

theorem trend_direction_rule:
  "trend (trends (build_analytics z ow rp evs T c t)) =
     spec_direction (spec_sum30 (dailyHistory (build_analytics z ow rp evs T c t)))
       (spec_sumPrev30 (dailyHistory (build_analytics z ow rp evs T c t)))
   \<and> spec_direction 115 100 = Up \<and> trend_detection 115 100 = Up
   \<and> spec_direction 85 100 = Down \<and> trend_detection 85 100 = Down
   \<and> spec_direction 95 100 = Stable \<and> trend_detection 95 100 = Stable"
proof -
  have "trend (trends (build_analytics z ow rp evs T c t)) =
      trend_detection (spec_sum30 (daily_history z evs T c t))
        (spec_sumPrev30 (daily_history z evs T c t))"
    by (simp add: build_analytics_def compute_trends_def sum30_spec sumPrev30_spec)
  then have gen: "trend (trends (build_analytics z ow rp evs T c t)) =
     spec_direction (spec_sum30 (dailyHistory (build_analytics z ow rp evs T c t)))
       (spec_sumPrev30 (dailyHistory (build_analytics z ow rp evs T c t)))"
    by (simp add: trend_detection_spec spec_sumPrev30_nonneg)
  have ex: "spec_direction 115 100 = Up" "trend_detection 115 100 = Up"
    "spec_direction 85 100 = Down" "trend_detection 85 100 = Down"
    "spec_direction 95 100 = Stable" "trend_detection 95 100 = Stable"
    by (simp_all add: spec_direction_def trend_detection_def)
  from gen ex show ?thesis by simp
qed

subsection \<open>Independence of the order of the stargazers\<close>

lemma hourly_loop_cong:
  "get_or_0 m1 = get_or_0 m2 \<Longrightarrow>
   hourly_loop z m1 today h acc = hourly_loop z m2 today h acc"
proof (induction z m1 today h acc rule: hourly_loop.induct)
  case (1 z byHour today h acc)
  show ?case
  proof (cases "h \<le> today")
    case True
    have g: "get_or_0 byHour (iso_hour h) = get_or_0 m2 (iso_hour h)"
      using 1(2) by simp
    show ?thesis
      using True 1(1) [OF True 1(2)]
      by (subst hourly_loop.simps, subst (2) hourly_loop.simps) (simp add: g)
  next
    case False
    then show ?thesis
      by (subst hourly_loop.simps, subst (2) hourly_loop.simps) simp
  qed
qed

lemma hourly_activity_mset:
  "mset xs = mset ys \<Longrightarrow> hourly_activity z xs today = hourly_activity z ys today"
  unfolding hourly_activity_def
  by (rule hourly_loop_cong) (simp add: get_starsByHour stars_in_mset [of xs ys])

lemma unscaled_history_mset:
  "mset xs = mset ys \<Longrightarrow> unscaled_history z xs c t = unscaled_history z ys c t"
  by (simp add: unscaled_history_series stars_on_mset [of xs ys])

lemma observedTotal_mset:
  "mset xs = mset ys \<Longrightarrow> observedTotal z xs c t = observedTotal z ys c t"
  by (simp add: observedTotal_series stars_on_mset [of xs ys])

lemma daily_history_mset:
  "mset xs = mset ys \<Longrightarrow> daily_history z xs T c t = daily_history z ys T c t"
  by (simp add: daily_history_def unscaled_history_mset [of xs ys]
      observedTotal_mset [of xs ys])

text \<open>
  C8. Two lists of stargazers that are permutations of each other give the same
  response body, for the same reported total, creation day and instant of the request:
  the same daily history, hourly activity, trends, recent activity and completeness.
\<close>

theorem build_analytics_order_independent:
  assumes "mset evs = mset evs'"
  shows "build_analytics z ow rp evs T c t = build_analytics z ow rp evs' T c t"
  unfolding build_analytics_def
  by (simp add: daily_history_mset [OF assms] hourly_activity_mset [OF assms]
      observedTotal_mset [OF assms])

theorem build_analytics_order_independent_witness:
  "mset [ex_star_10h, ex_star_11h] = mset [ex_star_11h, ex_star_10h]
   \<and> build_analytics utc_zone ''o'' ''r'' [ex_star_10h, ex_star_11h] 2 ex_created ex_today
     = build_analytics utc_zone ''o'' ''r'' [ex_star_11h, ex_star_10h] 2 ex_created ex_today"
proof -
  have h: "mset [ex_star_10h, ex_star_11h] = mset [ex_star_11h, ex_star_10h]" by simp
  from build_analytics_order_independent [OF h] h show ?thesis by simp
qed

subsection \<open>The batch loop and its trace\<close>

lemma promise_all_Inr: "promise_all xs = Inr rs \<Longrightarrow> xs = map Inr rs"
  by (induction xs arbitrary: rs rule: promise_all.induct) (auto split: sum.splits)

lemma promise_all_Inl: "promise_all xs = Inl e \<Longrightarrow> \<exists>a\<in>set xs. isl a"
  by (induction xs arbitrary: e rule: promise_all.induct) (auto split: sum.splits)

lemma settled_map_Inr [simp]: "settled (map Inr rs) = rs"
  by (induction rs) simp_all

lemma list_ex_empty: "list_ex (\<lambda>r. r = []) xs = ([] \<in> set xs)"
  by (auto simp: list_ex_iff)

lemma batch_entry_simps [simp]:
  "pages (batch_entry batch as q) = batch"
  "answers (batch_entry batch as q) = as"
  "quota (batch_entry batch as q) = q"
  by (simp_all add: batch_entry_def)

lemma results_fulfilled [simp]:
  "results (batch_entry batch (map Inr rs) q) = map snd rs"
  "outcomes (batch_entry batch (map Inr rs) q) = map fst rs"
  "fulfilled (batch_entry batch (map Inr rs) q)"
  by (simp_all add: results_def outcomes_def fulfilled_def list_all_iff)

lemma entry_ok_fulfilled:
  assumes "promise_all (map (fetch_page w) batch) = Inr rs"
    and "(q \<noteq> NotQueried) = ([] \<in> set (map snd rs))"
  shows "entry_ok w (batch_entry batch (map Inr rs) q)"
proof -
  have "map (fetch_page w) batch = map Inr rs" using assms(1) by (rule promise_all_Inr)
  then show ?thesis using assms(2) by (simp add: entry_ok_def)
qed

lemma entry_ok_rejected:
  assumes "promise_all (map (fetch_page w) batch) = Inl e"
  shows "entry_ok w (batch_entry batch (map (fetch_page w) batch) NotQueried)"
    and "\<not> fulfilled (batch_entry batch (map (fetch_page w) batch) NotQueried)"
proof -
  from promise_all_Inl [OF assms]
  show nf: "\<not> fulfilled (batch_entry batch (map (fetch_page w) batch) NotQueried)"
    by (auto simp: fulfilled_def list_all_iff)
  then show "entry_ok w (batch_entry batch (map (fetch_page w) batch) NotQueried)"
    by (simp add: entry_ok_def)
qed

lemma batch_loop_step:
  "batch_loop w ps i all tr =
     (if i < length ps
      then
        (case promise_all (map (fetch_page w) (take BATCH_SIZE (drop i ps))) of
           Inl e \<Rightarrow>
             (Inl e,
              tr @ [batch_entry (take BATCH_SIZE (drop i ps))
                      (map (fetch_page w) (take BATCH_SIZE (drop i ps))) NotQueried])
         | Inr rs \<Rightarrow>
             (if [] \<in> set (map snd rs)
              then
                (case get_rate_limit w i of
                   Inl e \<Rightarrow>
                     (Inl e,
                      tr @ [batch_entry (take BATCH_SIZE (drop i ps)) (map Inr rs)
                              (QueryRejected e)])
                 | Inr rateCheck \<Rightarrow>
                     (if remaining_below_10 (json rateCheck)
                      then
                        (Inr (all @ concat (map snd rs)),
                         tr @ [batch_entry (take BATCH_SIZE (drop i ps)) (map Inr rs)
                                 (Queried (json rateCheck))])
                      else
                        batch_loop w ps (i + BATCH_SIZE) (all @ concat (map snd rs))
                          (tr @ [batch_entry (take BATCH_SIZE (drop i ps)) (map Inr rs)
                                   (Queried (json rateCheck))])))
              else
                batch_loop w ps (i + BATCH_SIZE) (all @ concat (map snd rs))
                  (tr @ [batch_entry (take BATCH_SIZE (drop i ps)) (map Inr rs)
                           NotQueried])))
      else (Inr all, tr))"
  by (subst batch_loop.simps) (simp only: batch_entry_def list_ex_empty)

lemma plan_batches_step:
  "i < length ps \<Longrightarrow>
   plan_batches ps i = take BATCH_SIZE (drop i ps) # plan_batches ps (i + BATCH_SIZE)"
  "\<not> i < length ps \<Longrightarrow> plan_batches ps i = []"
  by (subst plan_batches.simps, simp)+


lemma run_ok_Nil: "run_ok w bs all [] (Inr all)" "run_ok w bs all [] (Inl e)"
  by (simp_all add: run_ok_def)

lemma run_ok_single:
  assumes "entry_ok w b" and "pages b = batch"
    and "stops b \<longrightarrow> (\<exists>evs. res = Inr evs)"
    and "\<forall>evs. res = Inr evs \<longrightarrow> evs = all @ concat (results b) \<and> fulfilled b"
  shows "run_ok w (batch # bs) all [b] res"
  using assms by (simp add: run_ok_def)

lemma run_ok_Cons:
  assumes "entry_ok w b" and "\<not> stops b" and "fulfilled b" and "pages b = batch"
    and "run_ok w bs (all @ concat (results b)) new res"
  shows "run_ok w (batch # bs) all (b # new) res"
  using assms by (auto simp: run_ok_def dest: in_set_butlastD)

lemma batch_loop_run:
  "\<exists>new. snd (batch_loop w ps i all tr) = tr @ new
     \<and> run_ok w (plan_batches ps i) all new (fst (batch_loop w ps i all tr))"
proof (induction "length ps - i" arbitrary: i all tr rule: less_induct)
  case less
  let ?batch = "take BATCH_SIZE (drop i ps)"
  show ?case
  proof (cases "i < length ps")
    case False
    then show ?thesis
      by (subst (1 2) batch_loop_step) (simp add: run_ok_Nil)
  next
    case lt: True
    have smaller: "length ps - (i + BATCH_SIZE) < length ps - i"
      using lt by (simp add: BATCH_SIZE_def)
    note pb = plan_batches_step(1) [OF lt]
    show ?thesis
    proof (cases "promise_all (map (fetch_page w) ?batch)")
      case (Inl e)
      let ?b = "batch_entry ?batch (map (fetch_page w) ?batch) NotQueried"
      note rej = entry_ok_rejected [OF Inl]
      have "run_ok w (plan_batches ps i) all [?b] (Inl e)"
        unfolding pb using rej by (intro run_ok_single) (simp_all add: stops_def)
      then show ?thesis
        using lt Inl by (subst (1 2) batch_loop_step) simp
    next
      case (Inr rs)
      show ?thesis
      proof (cases "[] \<in> set (map snd rs)")
        case none: False
        let ?b = "batch_entry ?batch (map Inr rs) NotQueried"
        have ok: "entry_ok w ?b" using Inr none by (intro entry_ok_fulfilled) simp_all
        have ns: "\<not> stops ?b" by (simp add: stops_def)
        from less [OF smaller, of "all @ concat (map snd rs)" "tr @ [?b]"]
        obtain new where new:
          "snd (batch_loop w ps (i + BATCH_SIZE) (all @ concat (map snd rs)) (tr @ [?b]))
             = (tr @ [?b]) @ new"
          "run_ok w (plan_batches ps (i + BATCH_SIZE)) (all @ concat (map snd rs)) new
             (fst (batch_loop w ps (i + BATCH_SIZE) (all @ concat (map snd rs)) (tr @ [?b])))"
          by blast
        have "run_ok w (plan_batches ps i) all (?b # new)
             (fst (batch_loop w ps (i + BATCH_SIZE) (all @ concat (map snd rs)) (tr @ [?b])))"
          unfolding pb using ok ns new(2) by (intro run_ok_Cons) simp_all
        then show ?thesis
          using lt Inr none new(1)
          by (subst (1 2) batch_loop_step) (simp del: set_map)
      next
        case some: True
        show ?thesis
        proof (cases "get_rate_limit w i")
          case rej: (Inl e)
          let ?b = "batch_entry ?batch (map Inr rs) (QueryRejected e)"
          have ok: "entry_ok w ?b" using Inr some by (intro entry_ok_fulfilled) simp_all
          have "run_ok w (plan_batches ps i) all [?b] (Inl e)"
            unfolding pb using ok by (intro run_ok_single) (simp_all add: stops_def)
          then show ?thesis
            using lt Inr some rej
            by (subst (1 2) batch_loop_step) (simp del: set_map)
        next
          case rc: (Inr rateCheck)
          let ?b = "batch_entry ?batch (map Inr rs) (Queried (json rateCheck))"
          have ok: "entry_ok w ?b" using Inr some by (intro entry_ok_fulfilled) simp_all
          show ?thesis
          proof (cases "remaining_below_10 (json rateCheck)")
            case True
            have "run_ok w (plan_batches ps i) all [?b] (Inr (all @ concat (map snd rs)))"
              unfolding pb using ok by (intro run_ok_single) simp_all
            then show ?thesis
              using lt Inr some rc True
              by (subst (1 2) batch_loop_step) (simp del: set_map)
          next
            case False
            have ns: "\<not> stops ?b" using False by (simp add: stops_def)
            from less [OF smaller, of "all @ concat (map snd rs)" "tr @ [?b]"]
            obtain new where new:
              "snd (batch_loop w ps (i + BATCH_SIZE) (all @ concat (map snd rs)) (tr @ [?b]))
                 = (tr @ [?b]) @ new"
              "run_ok w (plan_batches ps (i + BATCH_SIZE)) (all @ concat (map snd rs)) new
                 (fst (batch_loop w ps (i + BATCH_SIZE) (all @ concat (map snd rs)) (tr @ [?b])))"
              by blast
            have "run_ok w (plan_batches ps i) all (?b # new)
              (fst (batch_loop w ps (i + BATCH_SIZE) (all @ concat (map snd rs)) (tr @ [?b])))"
              unfolding pb using ok ns new(2) by (intro run_ok_Cons) simp_all
            then show ?thesis
              using lt Inr some rc False new(1)
              by (subst (1 2) batch_loop_step) (simp del: set_map)
          qed
        qed
      qed
    qed
  qed
qed

subsection \<open>Runs of the handler\<close>

lemma fetch_run_ok:
  "run_ok w (plan_batches (plan_pages T full) 0) []
     (snd (fetch_stargazers w T full)) (fst (fetch_stargazers w T full))"
  using batch_loop_run [of w "plan_pages T full" 0 "[]" "[]"]
  by (simp add: fetch_stargazers_def)

lemma handler_trace:
  "snd (snd (handler req w starCache)) =
     (case get_repo w of
        Inl e \<Rightarrow> []
      | Inr r \<Rightarrow>
          if \<not> ok r then []
          else (case cache_hit starCache (cacheKey req) (now_cache_check w) of
                  Some cached \<Rightarrow> []
                | None \<Rightarrow> snd (fetch_stargazers w (stargazers_count (json r)) (fetchFull req))))"
  by (simp add: handler_def with_repo_def split: sum.splits option.splits)


lemma handler_cache_cases:
  "fst (snd (handler req w starCache)) =
     (case get_repo w of
        Inl e \<Rightarrow> starCache
      | Inr r \<Rightarrow>
          if \<not> ok r then starCache
          else (case cache_hit starCache (cacheKey req) (now_cache_check w) of
                  Some cached \<Rightarrow> starCache
                | None \<Rightarrow>
                    (case fst (fetch_stargazers w (stargazers_count (json r)) (fetchFull req)) of
                       Inl e \<Rightarrow> starCache
                     | Inr evs \<Rightarrow> cache_store starCache (cacheKey req) (now_cache_store w) evs)))"
  by (simp add: handler_def with_repo_def split: sum.splits option.splits)

lemma handler_trace_entries:
  "b \<in> set (snd (snd (handler req w starCache))) \<Longrightarrow> entry_ok w b"
  using fetch_run_ok [of w _ "fetchFull req"]
  by (auto simp: handler_trace run_ok_def split: sum.splits if_splits option.splits)

lemma handler_trace_batches:
  "get_repo w = Inr r \<Longrightarrow>
   map pages (snd (snd (handler req w starCache))) =
     take (length (snd (snd (handler req w starCache))))
       (plan_batches (plan_pages (stargazers_count (json r)) (fetchFull req)) 0)"
  using fetch_run_ok [of w "stargazers_count (json r)" "fetchFull req"]
  by (auto simp: handler_trace run_ok_def split: option.splits)

subsection \<open>Four concrete worlds\<close>

lemma upto_from_1: "1 \<le> j \<Longrightarrow> [1..j] = 1 # [2..j]"
  by (simp add: upto_rec1)

lemma plan_1: "plan_pages 50 False = [1]"
  using plan_pages_all [of False 50] by (simp add: totalPages_div)

lemma plan_2: "plan_pages 150 False = [1, 2]"
  using plan_pages_all [of False 150] by (simp add: totalPages_div upto_from_1)


lemma fetch_error:
  "fetch_stargazers ex_world_error 50 False =
     (Inr [], [\<lparr>pages = [1], answers = [Inr (PageError, [])],
                quota = Queried (Some 4000)\<rparr>])"
  unfolding fetch_stargazers_def plan_1
  apply (subst batch_loop_step)
  apply (simp add: BATCH_SIZE_def fetch_page_def ex_world_error_def page_result_def ok_def
      ex_rate_def remaining_below_10_def batch_entry_def)
  apply (subst batch_loop_step)
  apply simp
  done

lemma fetch_limited:
  "fetch_stargazers ex_world_limited 150 False =
     (Inr [ex_star_10h, ex_star_11h],
      [\<lparr>pages = [1, 2],
        answers = [Inr (PageOk, [ex_star_10h, ex_star_11h]), Inr (RateLimited, [])],
        quota = Queried (Some 5)\<rparr>])"
  unfolding fetch_stargazers_def plan_2
  apply (subst batch_loop_step)
  apply (simp add: BATCH_SIZE_def fetch_page_def ex_world_limited_def page_result_def ok_def
      ex_rate_def remaining_below_10_def batch_entry_def)
  done

lemma fetch_abort:
  "fetch_stargazers ex_world_abort 150 False =
     (Inl ''fetch failed'',
      [\<lparr>pages = [1, 2], answers = [Inr (RateLimited, []), Inl ''fetch failed''],
        quota = NotQueried\<rparr>])"
  unfolding fetch_stargazers_def plan_2
  apply (subst batch_loop_step)
  apply (simp add: BATCH_SIZE_def fetch_page_def ex_world_abort_def page_result_def ok_def
      batch_entry_def)
  done

lemma ex_page_full_simps [simp]:
  "ex_page_full \<noteq> []" "[] \<noteq> ex_page_full" "length ex_page_full = 100"
  by (simp_all add: ex_page_full_def)


lemma ex_world_error_simps [simp]:
  "get_repo ex_world_error = ex_repo 50"
  "local_zone ex_world_error = utc_zone"
  "now_today ex_world_error = ex_today"
  "now_cache_check ex_world_error = ex_today"
  "now_cache_store ex_world_error = ex_today"
  by (simp_all add: ex_world_error_def)

lemma ex_world_limited_simps [simp]:
  "get_repo ex_world_limited = ex_repo 150"
  "local_zone ex_world_limited = utc_zone"
  "now_today ex_world_limited = ex_today"
  "now_cache_check ex_world_limited = ex_today"
  "now_cache_store ex_world_limited = ex_today"
  by (simp_all add: ex_world_limited_def)

lemma ex_world_abort_simps [simp]:
  "get_repo ex_world_abort = ex_repo 150"
  "local_zone ex_world_abort = utc_zone"
  "now_today ex_world_abort = ex_today"
  "now_cache_check ex_world_abort = ex_today"
  "now_cache_store ex_world_abort = ex_today"
  by (simp_all add: ex_world_abort_def)

lemma ex_world_2001_simps [simp]:
  "get_repo ex_world_2001 = ex_repo 2001"
  "local_zone ex_world_2001 = utc_zone"
  "now_today ex_world_2001 = ex_today"
  "now_cache_check ex_world_2001 = ex_today"
  "now_cache_store ex_world_2001 = ex_today"
  by (simp_all add: ex_world_2001_def)

lemma ex_req_simps [simp]:
  "fetchFull ex_req = False" "cacheKey ex_req = ''octo/cat''"
  "path_owner ex_req = ''octo''" "path_repo ex_req = ''cat''"
  by (simp_all add: fetchFull_def cacheKey_def ex_req_def)

lemma ex_miss:
  "get_repo w = ex_repo n \<Longrightarrow> now_cache_check w = ex_today \<Longrightarrow>
   get_repo w = Inr \<lparr>status = 200, statusText = ''OK'',
       json = \<lparr>stargazers_count = n, created_at = date_of_day ex_created\<rparr>\<rparr>
   \<and> ok \<lparr>status = 200, statusText = ''OK'',
       json = \<lparr>stargazers_count = n, created_at = date_of_day ex_created\<rparr>\<rparr>
   \<and> cache_hit Map.empty (cacheKey ex_req) (now_cache_check w) = None"
  by (simp add: ex_repo_def ok_def cache_hit_def)

lemma handler_error_trace:
  "snd (snd (handler ex_req ex_world_error Map.empty)) =
     [\<lparr>pages = [1], answers = [Inr (PageError, [])], quota = Queried (Some 4000)\<rparr>]"
  by (simp add: handler_trace ex_repo_def ok_def cache_hit_def fetch_error)

lemma handler_limited_trace:
  "snd (snd (handler ex_req ex_world_limited Map.empty)) =
     [\<lparr>pages = [1, 2],
        answers = [Inr (PageOk, [ex_star_10h, ex_star_11h]), Inr (RateLimited, [])],
        quota = Queried (Some 5)\<rparr>]"
  by (simp add: handler_trace ex_repo_def ok_def cache_hit_def fetch_limited)

lemma handler_abort:
  "snd (snd (handler ex_req ex_world_abort Map.empty)) =
     [\<lparr>pages = [1, 2], answers = [Inr (RateLimited, []), Inl ''fetch failed''],
        quota = NotQueried\<rparr>]"
  "fst (handler ex_req ex_world_abort Map.empty) = Failure 500 ''fetch failed''"
  by (simp_all add: handler_def with_repo_def ex_repo_def ok_def cache_hit_def fetch_abort
      on_error_def)

subsection \<open>When the rate-limit endpoint is asked\<close>

lemma settled_mem: "x \<in> set (settled xs) \<longleftrightarrow> Inr x \<in> set xs"
  by (induction xs rule: settled.induct) auto

lemma results_empty_mem:
  "([] \<in> set (results b)) = (\<exists>oc. Inr (oc, []) \<in> set (answers b))"
  by (force simp: results_def settled_mem image_iff)

lemma fulfilled_iff: "fulfilled b = (\<forall>a\<in>set (answers b). \<exists>x. a = Inr x)"
proof -
  have "(\<not> isl a) = (\<exists>x. a = Inr x)" for a :: "string + page_outcome \<times> StargazerWithDate list"
    by (cases a) simp_all
  then show ?thesis by (simp add: fulfilled_def list_all_iff)
qed

lemma fetch_page_empty:
  assumes "fetch_page w p = Inr (oc, [])"
  shows "\<exists>resp. get_page w p = Inr resp
     \<and> (status resp = 403 \<and> oc = RateLimited
        \<or> status resp \<noteq> 403 \<and> \<not> ok resp \<and> oc = PageError
        \<or> status resp \<noteq> 403 \<and> ok resp \<and> json resp = [] \<and> oc = PageOk)"
  using assms
  by (auto simp: fetch_page_def page_result_def split: sum.splits if_splits)

text \<open>
  C2, amended. The trace holds the batches of the plan in order, one entry for every
  batch the run starts, each with the answers of the world to its pages. The
  rate-limit endpoint is asked after a batch only if some page of the batch
  contributed the empty list: a fetch answered 403, a fetch that failed with another
  status, or a successful fetch of an empty page. It is never asked after a batch in
  which every page contributed at least one stargazer. More precisely it is asked
  exactly when no fetch of the batch rejected and some page contributed the empty list.
\<close>

theorem quota_queried_only_after_empty_result:
  "(\<forall>r. get_repo w = Inr r \<longrightarrow>
      map pages (snd (snd (handler req w starCache))) =
        take (length (snd (snd (handler req w starCache))))
          (plan_batches (plan_pages (stargazers_count (json r)) (fetchFull req)) 0))
   \<and> (\<forall>b\<in>set (snd (snd (handler req w starCache))).
        answers b = map (fetch_page w) (pages b)
      \<and> (quota b \<noteq> NotQueried \<longrightarrow> (\<exists>oc. Inr (oc, []) \<in> set (answers b)))
      \<and> ((\<forall>a\<in>set (answers b). \<exists>oc r. a = Inr (oc, r) \<and> r \<noteq> []) \<longrightarrow> quota b = NotQueried)
      \<and> ((quota b \<noteq> NotQueried) =
           ((\<forall>a\<in>set (answers b). \<exists>x. a = Inr x) \<and> (\<exists>oc. Inr (oc, []) \<in> set (answers b))))
      \<and> (\<forall>p oc. p \<in> set (pages b) \<and> fetch_page w p = Inr (oc, []) \<longrightarrow>
            (\<exists>resp. get_page w p = Inr resp
               \<and> (status resp = 403 \<and> oc = RateLimited
                  \<or> status resp \<noteq> 403 \<and> \<not> ok resp \<and> oc = PageError
                  \<or> status resp \<noteq> 403 \<and> ok resp \<and> json resp = [] \<and> oc = PageOk))))"
proof (intro conjI allI impI ballI)
  fix r assume "get_repo w = Inr r"
  then show "map pages (snd (snd (handler req w starCache))) =
        take (length (snd (snd (handler req w starCache))))
          (plan_batches (plan_pages (stargazers_count (json r)) (fetchFull req)) 0)"
    by (rule handler_trace_batches)
next
  fix b assume b: "b \<in> set (snd (snd (handler req w starCache)))"
  then have ok: "entry_ok w b" by (rule handler_trace_entries)
  then show "answers b = map (fetch_page w) (pages b)" by (simp add: entry_ok_def)
  from ok have q: "(quota b \<noteq> NotQueried) =
      ((\<forall>a\<in>set (answers b). \<exists>x. a = Inr x) \<and> (\<exists>oc. Inr (oc, []) \<in> set (answers b)))"
    by (simp add: entry_ok_def fulfilled_iff results_empty_mem)
  then show "(quota b \<noteq> NotQueried) =
      ((\<forall>a\<in>set (answers b). \<exists>x. a = Inr x) \<and> (\<exists>oc. Inr (oc, []) \<in> set (answers b)))" .
  { assume "quota b \<noteq> NotQueried"
    then show "\<exists>oc. Inr (oc, []) \<in> set (answers b)" using q by blast }
  { assume all: "\<forall>a\<in>set (answers b). \<exists>oc r. a = Inr (oc, r) \<and> r \<noteq> []"
    have "\<not> (\<exists>oc. Inr (oc, []) \<in> set (answers b))"
    proof
      assume "\<exists>oc. Inr (oc, []) \<in> set (answers b)"
      then obtain oc where "Inr (oc, []) \<in> set (answers b)" ..
      with all show False by fastforce
    qed
    then show "quota b = NotQueried" using q by blast }
  { fix p oc assume "p \<in> set (pages b) \<and> fetch_page w p = Inr (oc, [])"
    then show "\<exists>resp. get_page w p = Inr resp
               \<and> (status resp = 403 \<and> oc = RateLimited
                  \<or> status resp \<noteq> 403 \<and> \<not> ok resp \<and> oc = PageError
                  \<or> status resp \<noteq> 403 \<and> ok resp \<and> json resp = [] \<and> oc = PageOk)"
      using fetch_page_empty by blast }
qed

text \<open>
  C2, as stated, fails: with one planned page that answers 500, the rate-limit endpoint
  is asked although no fetch of the batch was rate-limited.
\<close>

theorem quota_queried_counterexample:
  "\<not> (\<forall>b\<in>set (snd (snd (handler ex_req ex_world_error Map.empty))).
        quota b \<noteq> NotQueried \<longrightarrow> RateLimited \<in> set (outcomes b))"
  by (simp add: handler_error_trace outcomes_def)

theorem quota_queried_only_after_empty_result_witness:
  "get_repo ex_world_limited = Inr \<lparr>status = 200, statusText = ''OK'',
       json = \<lparr>stargazers_count = 150, created_at = date_of_day ex_created\<rparr>\<rparr>
   \<and> snd (snd (handler ex_req ex_world_limited Map.empty)) =
       [\<lparr>pages = [1, 2],
          answers = [Inr (PageOk, [ex_star_10h, ex_star_11h]), Inr (RateLimited, [])],
          quota = Queried (Some 5)\<rparr>]
   \<and> plan_batches (plan_pages 150 (fetchFull ex_req)) 0 = [[1, 2]]
   \<and> fetch_page ex_world_limited 2 = Inr (RateLimited, [])
   \<and> snd (snd (handler ex_req ex_world_error Map.empty)) =
       [\<lparr>pages = [1], answers = [Inr (PageError, [])], quota = Queried (Some 4000)\<rparr>]
   \<and> snd (snd (handler ex_req ex_world_abort Map.empty)) =
       [\<lparr>pages = [1, 2], answers = [Inr (RateLimited, []), Inl ''fetch failed''],
          quota = NotQueried\<rparr>]"
proof -
  have pb: "plan_batches (plan_pages 150 (fetchFull ex_req)) 0 = [[1, 2]]"
    by (simp add: plan_2 plan_batches_step BATCH_SIZE_def)
  have fp: "fetch_page ex_world_limited 2 = Inr (RateLimited, [])"
    by (simp add: fetch_page_def ex_world_limited_def page_result_def)
  have r: "get_repo ex_world_limited = Inr \<lparr>status = 200, statusText = ''OK'',
       json = \<lparr>stargazers_count = 150, created_at = date_of_day ex_created\<rparr>\<rparr>"
    by (simp add: ex_repo_def)
  show ?thesis
    using quota_queried_only_after_empty_result [of ex_world_limited ex_req Map.empty]
      quota_queried_only_after_empty_result [of ex_world_error ex_req Map.empty]
      quota_queried_only_after_empty_result [of ex_world_abort ex_req Map.empty]
      pb fp r
    by (simp add: handler_limited_trace handler_error_trace handler_abort)
qed

subsection \<open>The observed total is at most the number of stargazers\<close>







subsection \<open>Bounds on the fetched stargazers\<close>












subsection \<open>Stopping on a low quota\<close>


subsection \<open>A full run with 2001 reported stars\<close>







lemma iso_date_created: "iso_date (date_of_day ex_created) = ex_created"
  by simp



subsection \<open>The partial result of a stopped run\<close>




subsection \<open>The cache after a request\<close>

lemma cache_hit_stale:
  assumes "cache_hit starCache k now = None" and "now \<le> now'"
  shows "cache_hit starCache k now' = None"
  using assms by (auto simp: cache_hit_def split: option.splits if_splits)

text \<open>
  C9. The cache is written only when the fetch phase produced at least one stargazer.
  When the repository data is there, the cache has no fresh entry for the key and the
  fetch phase ends with the empty list, the cache after the request is the cache before
  it, and the key still has no fresh entry at any later instant, so that the next
  request fetches again. Whenever the cache after a request differs from the cache
  before it, the fetch phase ended with a non-empty list, stored under the key with
  the store instant.
\<close>

theorem cache_written_only_with_events:
  "(get_repo w = Inr r \<and> ok r
      \<and> cache_hit starCache (cacheKey req) (now_cache_check w) = None
      \<and> fst (fetch_stargazers w (stargazers_count (json r)) (fetchFull req)) = Inr []
    \<longrightarrow> fst (snd (handler req w starCache)) = starCache
        \<and> (\<forall>now' \<ge> now_cache_check w.
              cache_hit (fst (snd (handler req w starCache))) (cacheKey req) now' = None))
   \<and> (fst (snd (handler req w starCache)) \<noteq> starCache
    \<longrightarrow> (\<exists>r evs. get_repo w = Inr r \<and> evs \<noteq> []
          \<and> fst (fetch_stargazers w (stargazers_count (json r)) (fetchFull req)) = Inr evs
          \<and> fst (snd (handler req w starCache)) =
              starCache(cacheKey req \<mapsto> \<lparr>timestamp = now_cache_store w, data = evs\<rparr>)))"
proof (intro conjI impI)
  assume a: "get_repo w = Inr r \<and> ok r
      \<and> cache_hit starCache (cacheKey req) (now_cache_check w) = None
      \<and> fst (fetch_stargazers w (stargazers_count (json r)) (fetchFull req)) = Inr []"
  then show same: "fst (snd (handler req w starCache)) = starCache"
    by (simp add: handler_cache_cases cache_store_def)
  show "\<forall>now' \<ge> now_cache_check w.
              cache_hit (fst (snd (handler req w starCache))) (cacheKey req) now' = None"
    using a same cache_hit_stale [of starCache "cacheKey req" "now_cache_check w"] by auto
next
  assume "fst (snd (handler req w starCache)) \<noteq> starCache"
  then show "\<exists>r evs. get_repo w = Inr r \<and> evs \<noteq> []
          \<and> fst (fetch_stargazers w (stargazers_count (json r)) (fetchFull req)) = Inr evs
          \<and> fst (snd (handler req w starCache)) =
              starCache(cacheKey req \<mapsto> \<lparr>timestamp = now_cache_store w, data = evs\<rparr>)"
    by (auto simp: handler_cache_cases cache_store_def split: sum.splits option.splits if_splits)
qed

theorem cache_written_only_with_events_witness:
  "get_repo ex_world_error = Inr \<lparr>status = 200, statusText = ''OK'',
       json = \<lparr>stargazers_count = 50, created_at = date_of_day ex_created\<rparr>\<rparr>
   \<and> ok \<lparr>status = 200, statusText = ''OK'',
       json = \<lparr>stargazers_count = 50, created_at = date_of_day ex_created\<rparr>\<rparr>
   \<and> cache_hit Map.empty (cacheKey ex_req) (now_cache_check ex_world_error) = None
   \<and> fst (fetch_stargazers ex_world_error 50 (fetchFull ex_req)) = Inr []
   \<and> fst (snd (handler ex_req ex_world_error Map.empty)) = Map.empty
   \<and> cache_hit (fst (snd (handler ex_req ex_world_error Map.empty))) (cacheKey ex_req)
        (now_cache_check ex_world_error + 1) = None
   \<and> fst (snd (handler ex_req ex_world_limited Map.empty)) \<noteq> Map.empty
   \<and> (\<exists>r evs. get_repo ex_world_limited = Inr r \<and> evs \<noteq> []
          \<and> fst (snd (handler ex_req ex_world_limited Map.empty)) =
              [cacheKey ex_req \<mapsto> \<lparr>timestamp = now_cache_store ex_world_limited, data = evs\<rparr>])"
proof -
  let ?r = "\<lparr>status = 200, statusText = ''OK'',
       json = \<lparr>stargazers_count = 50, created_at = date_of_day ex_created\<rparr>\<rparr>"
  have m: "get_repo ex_world_error = Inr ?r \<and> ok ?r
     \<and> cache_hit Map.empty (cacheKey ex_req) (now_cache_check ex_world_error) = None"
    using ex_miss [of ex_world_error 50] by simp
  have f: "fst (fetch_stargazers ex_world_error (stargazers_count (json ?r)) (fetchFull ex_req))
      = Inr []"
    by (simp add: fetch_error)
  have "fst (snd (handler ex_req ex_world_limited Map.empty)) (cacheKey ex_req) \<noteq> None"
    by (simp add: handler_cache_cases ex_repo_def ok_def cache_hit_def fetch_limited
        cache_store_def)
  then have ch: "fst (snd (handler ex_req ex_world_limited Map.empty)) \<noteq> Map.empty"
    by auto
  from cache_written_only_with_events [of ex_world_error ?r Map.empty ex_req] m f
  have a: "fst (snd (handler ex_req ex_world_error Map.empty)) = Map.empty
     \<and> cache_hit (fst (snd (handler ex_req ex_world_error Map.empty))) (cacheKey ex_req)
        (now_cache_check ex_world_error + 1) = None"
    by (simp add: cache_hit_def)
  from cache_written_only_with_events [of ex_world_limited _ Map.empty ex_req] ch
  have b: "\<exists>r evs. get_repo ex_world_limited = Inr r \<and> evs \<noteq> []
          \<and> fst (snd (handler ex_req ex_world_limited Map.empty)) =
              [cacheKey ex_req \<mapsto> \<lparr>timestamp = now_cache_store ex_world_limited, data = evs\<rparr>]"
    by blast
  from m f a ch b show ?thesis by (simp add: cache_hit_def)
qed

end
